theory Spec2Isabelle
  imports Complex_Main
begin

section \<open>Data model\<close>

text \<open>
  The retrievals work on labelled arrays of radial velocities.  A missing sample (NaN in
  the arrays of the program) is \<open>None\<close>; every other sample is a real number, so all
  arithmetic below is exact.  An array with a leading time dimension is a time coordinate
  together with a value for every time index and every cell of the remaining dimensions.
\<close>

datatype error = TypeError | ValueError | LinAlgError | IndexError | InvalidIndexError

record 'c data_array =
  time :: "real list"
  vals :: "nat \<Rightarrow> 'c \<Rightarrow> real option"

section \<open>Six-beam method: windowed variances\<close>

fun present :: "real option list \<Rightarrow> real list" where
  "present [] = []"
| "present (None # xs) = present xs"
| "present (Some y # xs) = y # present xs"

text \<open>
  The samples of a centred window of \<open>w\<close> profiles around time index \<open>i\<close>: the indices
  \<open>i - w div 2, \<dots>, i + (w - 1) div 2\<close> that lie on the time axis, missing samples removed.
\<close>

definition window_vals :: "nat \<Rightarrow> 'c data_array \<Rightarrow> 'c \<Rightarrow> nat \<Rightarrow> real list" where
  "window_vals w da c i =
     present (map (\<lambda>j. vals da j c)
       (filter (\<lambda>j. i \<le> j + w div 2 \<and> j \<le> i + (w - 1) div 2) [0..<length (time da)]))"

text \<open>Variance of the samples of a window, with the divisor equal to their number.\<close>

definition nanvar :: "real list \<Rightarrow> real" where
  "nanvar ys = (let n = real (length ys); m = sum_list ys / n
                in sum_list (map (\<lambda>y. (y - m)\<^sup>2) ys) / n)"

text \<open>
  \<open>data.rolling(time=w, center=True, min_periods=mp)\<close>: the constructor of the rolling
  object refuses a window or a \<open>min_periods\<close> that is not positive.
\<close>

definition rolling :: "int \<Rightarrow> int \<Rightarrow> error + nat \<times> nat" where
  "rolling w mp =
     (if w \<le> 0 then Inl ValueError
      else if mp \<le> 0 then Inl ValueError
      else Inr (nat w, nat mp))"

text \<open>
  The values of the windowed variance: at every time index the variance of the samples
  present in the window, if there are at least \<open>min_periods\<close> of them.
\<close>

definition rolling_var :: "nat \<times> nat \<Rightarrow> 'c data_array \<Rightarrow> 'c data_array" where
  "rolling_var r da =
     da\<lparr>vals := \<lambda>i c.
        if i < length (time da)
        then (let ys = window_vals (fst r) da c i
              in if snd r \<le> length ys then Some (nanvar ys) else None)
        else None\<rparr>"

text \<open>
  The reduction \<open>var()\<close> of the rolling object.  It pads the time axis by the window
  less one and slides the window over the padded axis, which raises when the time axis
  is empty: the padded axis is then shorter than the window.
\<close>

definition rolling_reduce_var :: "nat \<times> nat \<Rightarrow> 'c data_array \<Rightarrow> error + 'c data_array" where
  "rolling_reduce_var r da = (if time da = [] then Inl ValueError else Inr (rolling_var r da))"

text \<open>
  \<open>get_variance\<close>; \<open>int(freq * 0.3)\<close> truncates, which for a positive \<open>freq\<close> is
  \<open>3 * freq div 10\<close>.
\<close>

definition get_variance :: "int \<Rightarrow> 'c data_array \<Rightarrow> error + 'c data_array" where
  "get_variance freq data =
     (case rolling freq ((3 * freq) div 10) of
        Inl e \<Rightarrow> Inl e
      | Inr r \<Rightarrow> rolling_reduce_var r data)"

text \<open>The product \<open>-1 * data\<close> of \<open>calc_variances\<close>.\<close>

definition times_minus_one :: "'c data_array \<Rightarrow> 'c data_array" where
  "times_minus_one da = da\<lparr>vals := \<lambda>i c. map_option (\<lambda>v. - 1 * v) (vals da i c)\<rparr>"

text \<open>What the specification promises of a window: at least 30 percent of its samples.\<close>

definition emits_iff_30_percent :: "int \<Rightarrow> 'c data_array \<Rightarrow> 'c \<Rightarrow> nat \<Rightarrow> bool" where
  "emits_iff_30_percent freq da c i =
     (case get_variance freq da of
        Inl e \<Rightarrow> False
      | Inr out \<Rightarrow>
          (vals out i c \<noteq> None) = (3 * freq \<le> 10 * int (length (window_vals (nat freq) da c i))))"

section \<open>Six-beam method: geometry matrix and its inverse\<close>

definition deg2rad :: "real \<Rightarrow> real" where
  "deg2rad x = x * pi / 180"

definition rad2deg :: "real \<Rightarrow> real" where
  "rad2deg x = x * 180 / pi"

text \<open>One line of the coefficient matrix: the body of the loop of \<open>get_m_matrix\<close>.\<close>

definition m_matrix_line :: "real \<Rightarrow> real \<Rightarrow> real list" where
  "m_matrix_line phi theta =
     (let ci1 = (cos phi)\<^sup>2 * (sin theta)\<^sup>2;
          ci2 = (cos phi)\<^sup>2 * (cos theta)\<^sup>2;
          ci3 = (sin phi)\<^sup>2;
          ci4 = (cos phi)\<^sup>2 * cos theta * sin theta;
          ci5 = cos phi * sin phi * sin theta;
          ci6 = cos phi * sin phi * cos theta
      in [ci1, ci2, ci3, ci4 * 2, ci5 * 2, ci6 * 2])"

text \<open>
  \<open>get_m_matrix\<close>.  The matrix is allocated with as many rows and columns as there are
  beams, the vertical one included, and every line has six entries: the assignment of a
  line raises unless there are five slanted azimuths.
\<close>

definition get_m_matrix :: "real \<Rightarrow> real list \<Rightarrow> error + real list list" where
  "get_m_matrix elv azm =
     (let phis = map (\<lambda>a. 1 * elv) azm @ [90];
          phis_rad = map deg2rad phis;
          thetas = azm @ [0];
          thetas_rad = map deg2rad thetas
      in if length thetas \<noteq> 6 then Inl ValueError
         else Inr (map (\<lambda>i. m_matrix_line (phis_rad ! i) (thetas_rad ! i))
                    [0..<length thetas_rad]))"

text \<open>
  The inverse of a square matrix in exact arithmetic, by elimination with row pivoting
  on the matrix extended by the identity.  A matrix is kept as a function of the row and
  the column index while it is reduced.  The pivot of a column is the entry of largest
  absolute value on or below the diagonal; a column whose pivot is zero means the matrix
  is singular, which is the error of \<open>numpy.linalg.inv\<close>.
\<close>

type_synonym mat = "nat \<Rightarrow> nat \<Rightarrow> real"

definition pivot_row :: "nat \<Rightarrow> nat \<Rightarrow> mat \<Rightarrow> nat" where
  "pivot_row n j A = fold (\<lambda>i p. if \<bar>A p j\<bar> < \<bar>A i j\<bar> then i else p) [Suc j..<n] j"

definition swap_rows :: "nat \<Rightarrow> nat \<Rightarrow> mat \<Rightarrow> mat" where
  "swap_rows j p A = A(j := A p, p := A j)"

definition scale_row :: "nat \<Rightarrow> real \<Rightarrow> mat \<Rightarrow> mat" where
  "scale_row j c A = A(j := (\<lambda>k. c * A j k))"

definition eliminate :: "nat \<Rightarrow> (nat \<Rightarrow> real) \<Rightarrow> mat \<Rightarrow> mat" where
  "eliminate j m A = (\<lambda>i. if i = j then A j else (\<lambda>k. A i k - m i * A j k))"

function gauss_jordan :: "nat \<Rightarrow> nat \<Rightarrow> mat \<Rightarrow> mat \<Rightarrow> mat option" where
  "gauss_jordan n j A B =
     (if n \<le> j then Some B
      else let p = pivot_row n j A in
        if A p j = 0 then None
        else let A1 = swap_rows j p A; B1 = swap_rows j p B;
                 c = 1 / A1 j j;
                 A2 = scale_row j c A1; B2 = scale_row j c B1;
                 m = (\<lambda>i. A2 i j)
             in gauss_jordan n (Suc j) (eliminate j m A2) (eliminate j m B2))"
  by pat_completeness auto
termination
  by (relation "measure (\<lambda>(n, j, A, B). n - j)") auto

declare gauss_jordan.simps [simp del]

definition linalg_inv :: "real list list \<Rightarrow> error + real list list" where
  "linalg_inv M =
     (let n = length M in
      if list_ex (\<lambda>row. length row \<noteq> n) M then Inl LinAlgError
      else case gauss_jordan n 0 (\<lambda>i k. M ! i ! k) (\<lambda>i k. if i = k then 1 else 0) of
             None \<Rightarrow> Inl LinAlgError
           | Some B \<Rightarrow> Inr (map (\<lambda>i. map (B i) [0..<n]) [0..<n]))"

definition get_m_matrix_inv :: "real list list \<Rightarrow> error + real list list" where
  "get_m_matrix_inv m_matrix = linalg_inv m_matrix"

text \<open>The invariants of the elimination, for a matrix \<open>M\<close> of \<open>n\<close> rows and columns.\<close>

definition row_comb :: "nat \<Rightarrow> mat \<Rightarrow> mat \<Rightarrow> mat \<Rightarrow> bool" where
  "row_comb n M A B \<longleftrightarrow> (\<forall>i<n. \<forall>k<n. A i k = (\<Sum>l<n. B i l * M l k))"

definition inj_mat :: "nat \<Rightarrow> mat \<Rightarrow> bool" where
  "inj_mat n B \<longleftrightarrow> (\<forall>y. (\<forall>i<n. (\<Sum>l<n. B i l * y l) = 0) \<longrightarrow> (\<forall>l<n. y l = 0))"

definition unit_cols :: "nat \<Rightarrow> nat \<Rightarrow> mat \<Rightarrow> bool" where
  "unit_cols n j A \<longleftrightarrow> (\<forall>i<n. \<forall>k<j. A i k = (if i = k then 1 else 0))"

definition ginv :: "nat \<Rightarrow> mat \<Rightarrow> nat \<Rightarrow> mat \<Rightarrow> mat \<Rightarrow> bool" where
  "ginv n M j A B \<longleftrightarrow> row_comb n M A B \<and> inj_mat n B \<and> unit_cols n j A"

text \<open>
  The coefficients of the polynomial whose roots on the unit circle are the zeros of
  \<open>a sin\<^sup>2 t + b cos\<^sup>2 t + d cos t sin t + e sin t + f cos t\<close>.
\<close>

definition trig_coeff :: "real \<Rightarrow> real \<Rightarrow> real \<Rightarrow> real \<Rightarrow> real \<Rightarrow> nat \<Rightarrow> complex" where
  "trig_coeff a b d e f k =
     [of_real (b - a) + \<i> * of_real d, of_real (2 * f) + \<i> * of_real (2 * e),
      of_real (2 * (a + b)), of_real (2 * f) - \<i> * of_real (2 * e),
      of_real (b - a) - \<i> * of_real d] ! k"

text \<open>Two matrices, as lists of lines, that are inverse to each other.\<close>

definition is_inverse :: "real list list \<Rightarrow> real list list \<Rightarrow> bool" where
  "is_inverse M B \<longleftrightarrow>
     length B = length M \<and>
     (\<forall>i<length M. \<forall>k<length M.
        (\<Sum>l<length M. M ! i ! l * B ! l ! k) = (if i = k then 1 else 0) \<and>
        (\<Sum>l<length M. B ! i ! l * M ! l ! k) = (if i = k then 1 else 0))"

section \<open>Six-beam method: the retrieval\<close>

text \<open>
  The restructured observations: the elevation and the azimuths of the slanted beams,
  their radial velocities with one cell for every range gate and azimuth, and the
  radial velocities of the vertical beam with one cell for every range gate.
\<close>

record restructured_data =
  elv :: real
  azm :: "real list"
  data_transf :: "(nat \<times> nat) data_array"
  data_transf_90 :: "nat data_array"

datatype py_object = GetRestructuredData restructured_data | OtherObject

record radial_variances =
  rVariance :: "(nat \<times> nat) data_array"
  rVariance90 :: "nat data_array"

record var_comp_ds =
  var_u :: "nat data_array"
  var_v :: "nat data_array"
  var_w :: "nat data_array"
  var_uv :: "nat data_array"
  var_uw :: "nat data_array"
  var_vw :: "nat data_array"

text \<open>
  \<open>interp(time=..., method="nearest")\<close>: the array is sorted along its time coordinate,
  a new time outside the coordinate's range gives a missing value, and any other new
  time takes the sample of the nearest old time, the earlier one at a midpoint.
\<close>

definition sortby_time :: "'c data_array \<Rightarrow> 'c data_array" where
  "sortby_time da =
     (let idx = sort_key (\<lambda>i. time da ! i) [0..<length (time da)]
      in \<lparr>time = map (\<lambda>i. time da ! i) idx,
          vals = \<lambda>i c. if i < length idx then vals da (idx ! i) c else None\<rparr>)"

definition nearest_index :: "real list \<Rightarrow> real \<Rightarrow> nat" where
  "nearest_index x t =
     min (length x - 1)
         (length (filter (\<lambda>b. b < t) (map2 (\<lambda>a b. a / 2 + b / 2) (tl x) (butlast x))))"

definition interp_nearest :: "'c data_array \<Rightarrow> real list \<Rightarrow> 'c data_array" where
  "interp_nearest da new_time =
     (let s = sortby_time da; x = time s
      in \<lparr>time = new_time,
          vals = \<lambda>i c.
            if i < length new_time
            then (let t = new_time ! i
                  in if x = [] \<or> t < hd x \<or> last x < t then None
                     else vals s (nearest_index x t) c)
            else None\<rparr>)"

text \<open>
  The call of \<open>interp\<close> itself.  Before it interpolates it takes the least and the
  greatest of the new times, which raises when there is none, and looks them up in the
  index of the old times, which raises when a time stamp is repeated there.
\<close>

definition interp :: "'c data_array \<Rightarrow> real list \<Rightarrow> error + 'c data_array" where
  "interp da new_time =
     (if new_time = [] then Inl ValueError
      else if \<not> distinct (time da) then Inl InvalidIndexError
      else Inr (interp_nearest da new_time))"

definition calc_variances :: "restructured_data \<Rightarrow> int \<Rightarrow> int \<Rightarrow> error + radial_variances" where
  "calc_variances data freq freq90 =
     (case interp (data_transf data) (time (data_transf_90 data)) of
        Inl e \<Rightarrow> Inl e
      | Inr interp_data_transf \<Rightarrow>
          (case get_variance freq interp_data_transf of
             Inl e \<Rightarrow> Inl e
           | Inr v \<Rightarrow>
               (case get_variance freq90 (times_minus_one (data_transf_90 data)) of
                  Inl e \<Rightarrow> Inl e
                | Inr v90 \<Rightarrow> Inr \<lparr>rVariance = v, rVariance90 = v90\<rparr>)))"

text \<open>
  The observation variances of a (time, range) cell: those of the slanted beams in the
  order of their azimuths, then the one of the vertical beam.
\<close>

definition get_s_matrix :: "nat \<Rightarrow> radial_variances \<Rightarrow> nat \<Rightarrow> nat \<Rightarrow> real option list" where
  "get_s_matrix n_azm rv t r =
     map (\<lambda>a. vals (rVariance rv) t (r, a)) [0..<n_azm] @ [vals (rVariance90 rv) t r]"

text \<open>A product of a matrix line and a column: a missing entry makes the sum missing.\<close>

fun nan_dot :: "real list \<Rightarrow> real option list \<Rightarrow> real option" where
  "nan_dot (b # row) (v # s) =
     (case (v, nan_dot row s) of (Some x, Some a) \<Rightarrow> Some (b * x + a) | _ \<Rightarrow> None)"
| "nan_dot _ _ = Some 0"

definition get_sigma ::
  "real list list \<Rightarrow> (nat \<Rightarrow> nat \<Rightarrow> real option list) \<Rightarrow> nat \<Rightarrow> nat \<Rightarrow> real option list" where
  "get_sigma m_matrix_inv s_matrix t r = map (\<lambda>row. nan_dot row (s_matrix t r)) m_matrix_inv"

definition get_variance_ds ::
  "(nat \<Rightarrow> nat \<Rightarrow> real option list) \<Rightarrow> radial_variances \<Rightarrow> var_comp_ds" where
  "get_variance_ds sigma_matrix rv =
     (let comp = (\<lambda>i. \<lparr>time = time (rVariance90 rv), vals = \<lambda>t r. sigma_matrix t r ! i\<rparr>)
      in \<lparr>var_u = comp 0, var_v = comp 1, var_w = comp 2,
          var_uv = comp 3, var_uw = comp 4, var_vw = comp 5\<rparr>)"

definition SixBeamMethod :: "py_object \<Rightarrow> int \<Rightarrow> int \<Rightarrow> error + var_comp_ds" where
  "SixBeamMethod obj freq freq90 =
     (case obj of
        OtherObject \<Rightarrow> Inl TypeError
      | GetRestructuredData data \<Rightarrow>
          (case get_m_matrix (elv data) (azm data) of
             Inl e \<Rightarrow> Inl e
           | Inr m_matrix \<Rightarrow>
               (case get_m_matrix_inv m_matrix of
                  Inl e \<Rightarrow> Inl e
                | Inr m_matrix_inv \<Rightarrow>
                    (case calc_variances data freq freq90 of
                       Inl e \<Rightarrow> Inl e
                     | Inr rv \<Rightarrow>
                         Inr (get_variance_ds
                                (get_sigma m_matrix_inv (get_s_matrix (length (azm data)) rv))
                                rv)))))"

text \<open>
  Two scans of four profiles with the usual geometry of the method, used as concrete
  inputs below.  In the first the radial velocities alternate in sign from profile to
  profile; in the second the slanted beams have no valid sample.
\<close>

definition consistent_scan :: restructured_data where
  "consistent_scan =
     \<lparr>elv = 75, azm = [0, 72, 144, 216, 288],
      data_transf =
        \<lparr>time = [0, 1, 2, 3],
         vals = \<lambda>i c. if snd c < 5
                  then Some ((- 1) ^ i *
                         (cos (deg2rad 75) * cos (deg2rad ([0, 72, 144, 216, 288] ! snd c))))
                  else None\<rparr>,
      data_transf_90 =
        \<lparr>time = [0, 1, 2, 3],
         vals = \<lambda>i r. Some ((- 1) ^ i * (cos (deg2rad 75) / sin (deg2rad 75)))\<rparr>\<rparr>"

definition gappy_scan :: restructured_data where
  "gappy_scan =
     \<lparr>elv = 75, azm = [0, 72, 144, 216, 288],
      data_transf = \<lparr>time = [0, 1, 2, 3], vals = \<lambda>i c. None\<rparr>,
      data_transf_90 = \<lparr>time = [0, 1, 2, 3], vals = \<lambda>i r. Some 1\<rparr>\<rparr>"

section \<open>DBS retrieval: data model\<close>

text \<open>
  The merged DBS dataset has the dimensions time and gate index.  It is kept profile by
  profile, in the order of its time coordinate, which is strictly increasing: selecting
  by time labels is then selecting profiles.  Every profile carries its time stamp, the
  elevation and azimuth of its beam, the mean time of the scan it belongs to and, for
  every gate, the radial wind speed, its status flag, the carrier-to-noise ratio and the
  measurement height.
\<close>

record profile =
  time_stamp :: real
  elevation :: real
  azimuth :: real
  scan_mean_time :: real
  radial_wind_speed :: "real option list"
  radial_wind_speed_status :: "int list"
  cnr :: "real option list"
  measurement_height :: "real list"

type_synonym dataset = "profile list"

definition wf_dataset :: "dataset \<Rightarrow> bool" where
  "wf_dataset data \<longleftrightarrow>
     sorted_wrt (<) (map time_stamp data) \<and>
     list_all (\<lambda>p. length (radial_wind_speed p) = length (radial_wind_speed (hd data)) \<and>
                  length (radial_wind_speed_status p) = length (radial_wind_speed p) \<and>
                  length (cnr p) = length (radial_wind_speed p) \<and>
                  length (measurement_height p) = length (radial_wind_speed p)) data"

text \<open>A field indexed by a time label and the range: its rows and its range coordinate.\<close>

type_synonym labelled_rows = "(real \<times> real option list) list"

record wind_component =
  coord_range :: "real list"
  rows :: labelled_rows

record wind_properties =
  verWindSpeed :: wind_component
  compV :: wind_component
  compU :: wind_component
  horWindSpeed :: wind_component
  horWindDir :: wind_component

section \<open>DBS retrieval: array operations\<close>

text \<open>Rounding to the nearest integer, a tie to the even one; rounding to one decimal.\<close>

definition rint :: "real \<Rightarrow> real" where
  "rint x =
     (let f = \<lfloor>x\<rfloor>; d = x - of_int f
      in if d < 1 / 2 then of_int f
         else if 1 / 2 < d then of_int (f + 1)
         else if even f then of_int f else of_int (f + 1))"

definition round1 :: "real \<Rightarrow> real" where
  "round1 x = rint (x * 10) / 10"

text \<open>
  Arithmetic on samples.  A missing operand gives a missing result, and so does a
  quotient by zero, which is not a real number.
\<close>

definition nan_div :: "real option \<Rightarrow> real \<Rightarrow> real option" where
  "nan_div v d = (case v of None \<Rightarrow> None | Some x \<Rightarrow> if d = 0 then None else Some (x / d))"

definition nan_sub :: "real option \<Rightarrow> real option \<Rightarrow> real option" where
  "nan_sub a b = (case (a, b) of (Some x, Some y) \<Rightarrow> Some (x - y) | _ \<Rightarrow> None)"

definition nan_neg :: "real option \<Rightarrow> real option" where
  "nan_neg a = map_option uminus a"

definition nan_binop :: "(real \<Rightarrow> real \<Rightarrow> real) \<Rightarrow> real option \<Rightarrow> real option \<Rightarrow> real option" where
  "nan_binop f a b = (case (a, b) of (Some x, Some y) \<Rightarrow> Some (f x y) | _ \<Rightarrow> None)"

definition arctan2 :: "real \<Rightarrow> real \<Rightarrow> real" where
  "arctan2 y x =
     (if 0 < x then arctan (y / x)
      else if x < 0 then (if 0 \<le> y then arctan (y / x) + pi else arctan (y / x) - pi)
      else if 0 < y then pi / 2
      else if y < 0 then - pi / 2
      else 0)"

text \<open>
  \<open>where(cond, drop=True)\<close> along time: the entries at which the condition on the
  azimuth holds.
\<close>

definition where_drop :: "(real \<Rightarrow> bool) \<Rightarrow> real list \<Rightarrow> 'a list \<Rightarrow> 'a list" where
  "where_drop cond az xs = map snd (filter (\<lambda>(a, x). cond a) (zip az xs))"

text \<open>
  The alignment of the two operands of an arithmetic operation on their time labels.
  Equal label lists need no alignment.  Otherwise the labels common to both are kept,
  which requires that no operand has a label twice.
\<close>

definition align_inner ::
  "(real \<times> 'a) list \<Rightarrow> (real \<times> 'b) list \<Rightarrow> error + (real \<times> 'a \<times> 'b) list" where
  "align_inner L R =
     (if map fst L = map fst R then Inr (map (\<lambda>((t, a), (u, b)). (t, a, b)) (zip L R))
      else if \<not> distinct (map fst L) \<or> \<not> distinct (map fst R) then Inl ValueError
      else Inr (List.map_filter (\<lambda>(t, a). map_option (\<lambda>b. (t, a, b)) (map_of R t)) L))"

definition aligned_binop ::
  "(real option \<Rightarrow> real option \<Rightarrow> real option) \<Rightarrow> labelled_rows \<Rightarrow> labelled_rows
     \<Rightarrow> error + labelled_rows" where
  "aligned_binop f L R =
     (case align_inner L R of
        Inl e \<Rightarrow> Inl e
      | Inr ts \<Rightarrow> Inr (map (\<lambda>(t, a, b). (t, map2 f a b)) ts))"

section \<open>DBS retrieval: the class \<open>getWindProperties5Beam\<close>\<close>

text \<open>The two optional masks of the constructor, as they are stored in the dataset.\<close>

definition status_mask :: "dataset \<Rightarrow> dataset" where
  "status_mask data =
     map (\<lambda>p. p\<lparr>radial_wind_speed :=
                  map2 (\<lambda>v s. if s = 1 then v else None)
                    (radial_wind_speed p) (radial_wind_speed_status p)\<rparr>) data"

definition cnr_mask :: "real \<Rightarrow> dataset \<Rightarrow> dataset" where
  "cnr_mask cnr_min data =
     map (\<lambda>p. p\<lparr>radial_wind_speed :=
                  map2 (\<lambda>v c. case c of None \<Rightarrow> None | Some x \<Rightarrow> if cnr_min \<le> x then v else None)
                    (radial_wind_speed p) (cnr p)\<rparr>) data"

text \<open>
  \<open>correctWindComp\<close>: the range coordinate is the measurement height of the first
  vertical profile; without a vertical profile its selection raises.
\<close>

definition correctWindComp :: "real list list \<Rightarrow> labelled_rows \<Rightarrow> error + wind_component" where
  "correctWindComp heights90 component =
     (case heights90 of
        [] \<Rightarrow> Inl IndexError
      | r # rs \<Rightarrow> Inr \<lparr>coord_range = r, rows = component\<rparr>)"

record beams =
  azimuthNon90 :: "real list"
  elevetionNon90 :: "real list"
  radWindSpeedNon90 :: "real option list list"
  meanTimeNon90 :: "real list"
  rangeVal90 :: "real list list"

text \<open>\<open>calcHorWindComp_single_dbs\<close>, up to the two differences of opposing beams.\<close>

definition beam_rows :: "beams \<Rightarrow> real \<Rightarrow> labelled_rows" where
  "beam_rows b az =
     (let compWindSpeed =
            map2 (\<lambda>vs e. map (\<lambda>v. nan_div v (2 * cos (deg2rad e))) vs)
              (radWindSpeedNon90 b) (elevetionNon90 b);
          component = where_drop (\<lambda>a. a = az) (azimuthNon90 b) compWindSpeed;
          meanTime = where_drop (\<lambda>a. a = az) (azimuthNon90 b) (meanTimeNon90 b)
      in zip meanTime component)"

definition calcHorWindComp_single_dbs ::
  "beams \<Rightarrow> error + wind_component \<times> wind_component" where
  "calcHorWindComp_single_dbs b =
     (let compVN = beam_rows b 0; compVS = beam_rows b 180;
          compUE = beam_rows b 90; compUW = beam_rows b 270
      in case aligned_binop nan_sub compVN compVS of
           Inl e \<Rightarrow> Inl e
         | Inr dV \<Rightarrow>
             (case aligned_binop nan_sub compUE compUW of
                Inl e \<Rightarrow> Inl e
              | Inr dU \<Rightarrow>
                  (let v = map (\<lambda>(t, xs). (t, map nan_neg xs)) dV;
                       u = map (\<lambda>(t, xs). (t, map nan_neg xs)) dU
                   in case correctWindComp (rangeVal90 b) v of
                        Inl e \<Rightarrow> Inl e
                      | Inr cv \<Rightarrow>
                          (case correctWindComp (rangeVal90 b) u of
                             Inl e \<Rightarrow> Inl e
                           | Inr cu \<Rightarrow> Inr (cv, cu)))))"

definition calcHorWindSpeed :: "wind_component \<Rightarrow> wind_component \<Rightarrow> error + wind_component" where
  "calcHorWindSpeed cv cu =
     (case aligned_binop (nan_binop (\<lambda>v u. sqrt (v\<^sup>2 + u\<^sup>2))) (rows cv) (rows cu) of
        Inl e \<Rightarrow> Inl e
      | Inr r \<Rightarrow> Inr (cv\<lparr>rows := r\<rparr>))"

definition calcHorWindDir :: "wind_component \<Rightarrow> wind_component \<Rightarrow> error + wind_component" where
  "calcHorWindDir cv cu =
     (case aligned_binop (nan_binop (\<lambda>u v. 180 + rad2deg (arctan2 (- u) (- v)))) (rows cu) (rows cv) of
        Inl e \<Rightarrow> Inl e
      | Inr r \<Rightarrow> Inr (cu\<lparr>rows := r\<rparr>))"

text \<open>
  The fields that the constructor selects from the dataset: the profiles are vertical
  or slanted by their elevation rounded to one decimal, and the azimuth of a slanted
  profile is rounded to one decimal, 360 becoming 0.
\<close>

definition select_beams :: "dataset \<Rightarrow> beams" where
  "select_beams data =
     (let timeNon90 = filter (\<lambda>p. round1 (elevation p) \<noteq> 90) data;
          time90 = filter (\<lambda>p. round1 (elevation p) = 90) data
      in \<lparr>azimuthNon90 =
            map (\<lambda>p. if round1 (azimuth p) = 360 then 0 else round1 (azimuth p)) timeNon90,
          elevetionNon90 = map (\<lambda>p. round1 (elevation p)) timeNon90,
          radWindSpeedNon90 = map radial_wind_speed timeNon90,
          meanTimeNon90 = map scan_mean_time timeNon90,
          rangeVal90 = map measurement_height time90\<rparr>)"

text \<open>
  The constructor with the default method \<open>single_dbs\<close>.  It assigns the masked radial
  wind speed to the dataset it was given, so its result is the dataset as the caller
  finds it afterwards, together with the retrieved fields or the error raised.
\<close>

definition getWindProperties5Beam ::
  "dataset \<Rightarrow> bool \<Rightarrow> real option \<Rightarrow> dataset \<times> (error + wind_properties)" where
  "getWindProperties5Beam data0 statusFilter cnr_min =
     (let data1 = (if statusFilter then status_mask data0 else data0);
          data = (case cnr_min of None \<Rightarrow> data1 | Some c \<Rightarrow> cnr_mask c data1);
          b = select_beams data;
          verticals = filter (\<lambda>p. round1 (elevation p) = 90) data
      in (data,
          case correctWindComp (rangeVal90 b)
                 (map (\<lambda>p. (time_stamp p, radial_wind_speed p)) verticals) of
            Inl e \<Rightarrow> Inl e
          | Inr w \<Rightarrow>
              (case calcHorWindComp_single_dbs b of
                 Inl e \<Rightarrow> Inl e
               | Inr (cv, cu) \<Rightarrow>
                   (case calcHorWindSpeed cv cu of
                      Inl e \<Rightarrow> Inl e
                    | Inr s \<Rightarrow>
                        (case calcHorWindDir cv cu of
                           Inl e \<Rightarrow> Inl e
                         | Inr d \<Rightarrow>
                             Inr \<lparr>verWindSpeed = w, compV = cv, compU = cu,
                                  horWindSpeed = s, horWindDir = d\<rparr>)))))"

text \<open>
  The single-scan policy in the words of the specification: the contribution of a
  slanted profile along its axis, the group of a nominal azimuth labelled by the mean
  times of the scans, and the negated difference of two opposing groups.
\<close>

definition nominal_azimuth :: "profile \<Rightarrow> real" where
  "nominal_azimuth p = (if round1 (azimuth p) = 360 then 0 else round1 (azimuth p))"

definition slanted :: "profile \<Rightarrow> bool" where
  "slanted p \<longleftrightarrow> round1 (elevation p) \<noteq> 90"

definition contribution :: "profile \<Rightarrow> real option list" where
  "contribution p =
     map (\<lambda>v. nan_div v (2 * cos (deg2rad (round1 (elevation p))))) (radial_wind_speed p)"

definition contribution_unrounded :: "profile \<Rightarrow> real option list" where
  "contribution_unrounded p =
     map (\<lambda>v. nan_div v (2 * cos (deg2rad (elevation p)))) (radial_wind_speed p)"

definition beam_group :: "dataset \<Rightarrow> real \<Rightarrow> labelled_rows" where
  "beam_group data az =
     map (\<lambda>p. (scan_mean_time p, contribution p))
       (filter (\<lambda>p. slanted p \<and> nominal_azimuth p = az) data)"

definition opposing_difference :: "labelled_rows \<Rightarrow> labelled_rows \<Rightarrow> error + labelled_rows" where
  "opposing_difference P Q =
     (case align_inner P Q of
        Inl e \<Rightarrow> Inl e
      | Inr ts \<Rightarrow> Inr (map (\<lambda>(t, a, b). (t, map2 (\<lambda>x y. nan_neg (nan_sub x y)) a b)) ts))"

text \<open>
  The same policy with the elevation as it is in the dataset, not rounded.
\<close>

definition beam_group_unrounded :: "dataset \<Rightarrow> real \<Rightarrow> labelled_rows" where
  "beam_group_unrounded data az =
     map (\<lambda>p. (scan_mean_time p, contribution_unrounded p))
       (filter (\<lambda>p. slanted p \<and> nominal_azimuth p = az) data)"

text \<open>
  A scan of one vertical and four slanted profiles with a single gate, used as a concrete
  input below, and the same scan with every azimuth turned by 90 degrees.  The sample of
  the vertical profile is flagged as bad.
\<close>

definition dbs_scan :: dataset where
  "dbs_scan =
     [\<lparr>time_stamp = 0, elevation = 90, azimuth = 0, scan_mean_time = 2,
       radial_wind_speed = [Some (1 / 2)], radial_wind_speed_status = [0],
       cnr = [Some (- 20)], measurement_height = [100]\<rparr>,
      \<lparr>time_stamp = 1, elevation = 75.04, azimuth = 0, scan_mean_time = 2,
       radial_wind_speed = [Some 1], radial_wind_speed_status = [1],
       cnr = [Some (- 20)], measurement_height = [100]\<rparr>,
      \<lparr>time_stamp = 2, elevation = 75.04, azimuth = 90, scan_mean_time = 2,
       radial_wind_speed = [Some 2], radial_wind_speed_status = [1],
       cnr = [Some (- 20)], measurement_height = [100]\<rparr>,
      \<lparr>time_stamp = 3, elevation = 75.04, azimuth = 180, scan_mean_time = 2,
       radial_wind_speed = [Some 0], radial_wind_speed_status = [1],
       cnr = [Some (- 20)], measurement_height = [100]\<rparr>,
      \<lparr>time_stamp = 4, elevation = 75.04, azimuth = 270, scan_mean_time = 2,
       radial_wind_speed = [Some 2], radial_wind_speed_status = [1],
       cnr = [Some (- 20)], measurement_height = [100]\<rparr>]"

definition rotated_scan :: dataset where
  "rotated_scan = map (\<lambda>p. p\<lparr>azimuth := azimuth p + 90\<rparr>) dbs_scan"

text \<open>
  The first scan with the sample of the east beam flagged as bad: the east and the west
  beam still have the same radial velocity.
\<close>

definition flagged_scan :: dataset where
  "flagged_scan =
     map (\<lambda>p. if azimuth p = 90 then p\<lparr>radial_wind_speed_status := [0]\<rparr> else p) dbs_scan"

section \<open>Fourier retrieval: the class \<open>fftWindPropRet\<close>\<close>



text \<open>
  The discrete Fourier transform of a series, its coefficients in the order of the
  frequencies \<open>0, 1, \<dots>, N - 1\<close>; the reordering that puts them in ascending order
  of the signed frequency, and its inverse; the signed frequencies of \<open>n\<close> samples with
  the spacing \<open>d\<close>, in the order of the transform.
\<close>

definition dft :: "real list \<Rightarrow> nat \<Rightarrow> complex" where
  "dft xs k =
     (\<Sum>n<length xs. of_real (xs ! n) * cis (- (2 * pi * real k * real n / real (length xs))))"

definition fft :: "real list \<Rightarrow> complex list" where
  "fft xs = map (dft xs) [0..<length xs]"

definition fftshift :: "'a list \<Rightarrow> 'a list" where
  "fftshift xs = rotate (length xs - length xs div 2) xs"


definition fftfreq :: "nat \<Rightarrow> real \<Rightarrow> real list" where
  "fftfreq n d =
     map (\<lambda>k. (if k < (n + 1) div 2 then real k else real k - real n) / (real n * d)) [0..<n]"















section \<open>Properties of the windowed variance\<close>

lemma present_map_neg: "present (map (map_option uminus) xs) = map uminus (present xs)"
  by (induction xs rule: present.induct) simp_all

lemma window_vals_times_minus_one:
  "window_vals w (times_minus_one da) c i = map uminus (window_vals w da c i)"
proof -
  have "map (\<lambda>j. vals (times_minus_one da) j c) js
        = map (map_option uminus) (map (\<lambda>j. vals da j c) js)" for js
    by (simp add: times_minus_one_def)
  moreover have "time (times_minus_one da) = time da"
    by (simp add: times_minus_one_def)
  ultimately show ?thesis
    by (simp only: window_vals_def present_map_neg)
qed

lemma sum_list_map_uminus: "sum_list (map uminus ys) = - sum_list (ys :: real list)"
  by (induction ys) simp_all

lemma nanvar_uminus: "nanvar (map uminus ys) = nanvar ys"
proof -
  have "(- y - - s / n)\<^sup>2 = (y - s / n)\<^sup>2" for y s n :: real
    by (simp add: power2_eq_square algebra_simps)
  then show ?thesis
    by (simp add: nanvar_def Let_def sum_list_map_uminus o_def)
qed

lemma get_variance_negated:
  "get_variance w (times_minus_one da) = get_variance w da"
proof -
  have t: "time (times_minus_one da) = time da"
    by (simp add: times_minus_one_def)
  have "rolling_var r (times_minus_one da) = rolling_var r da" for r
    unfolding rolling_var_def window_vals_times_minus_one nanvar_uminus length_map t Let_def
    by (simp add: times_minus_one_def)
  then show ?thesis
    by (simp add: get_variance_def rolling_reduce_var_def t split: sum.splits)
qed

text \<open>
  C10.  Negating the vertical-beam series before the rolling variance changes nothing:
  for every array and every window size the windowed variance of \<open>-1 * X\<close> is the
  windowed variance of \<open>X\<close> (the same values, the same missing points, the same error).
  Hence \<open>calc_variances\<close> returns what it would return with the factor dropped.
\<close>

theorem get_variance_times_minus_one:
  "get_variance freq90 (times_minus_one data) = get_variance freq90 data \<and>
   calc_variances d freq freq90 =
     (case interp (data_transf d) (time (data_transf_90 d)) of
        Inl e \<Rightarrow> Inl e
      | Inr interp_data_transf \<Rightarrow>
          (case get_variance freq interp_data_transf of
             Inl e \<Rightarrow> Inl e
           | Inr v \<Rightarrow>
               (case get_variance freq90 (data_transf_90 d) of
                  Inl e \<Rightarrow> Inl e
                | Inr v90 \<Rightarrow> Inr \<lparr>rVariance = v, rVariance90 = v90\<rparr>)))"
  unfolding calc_variances_def get_variance_negated by simp

text \<open>
  C8, as amended.  For a window of at least four profiles and an array with at least one
  time point \<open>get_variance\<close> raises no error, and it emits a value at a time point
  exactly when the number of samples present in the centred window reaches
  \<open>int(freq * 0.3)\<close>, the truncation of 30 percent of the window; in particular it emits
  a value whenever at least 30 percent of the window is present, and the point is missing
  otherwise.  On an array without a time point it raises.
\<close>

theorem get_variance_emits:
  assumes "4 \<le> freq"
  shows "(time data = [] \<longrightarrow> get_variance freq data = Inl ValueError) \<and>
         (time data \<noteq> [] \<longrightarrow>
            (\<exists>out. get_variance freq data = Inr out \<and> time out = time data \<and>
               (\<forall>c. \<forall>i < length (time data).
                  ((vals out i c \<noteq> None) =
                     (nat ((3 * freq) div 10) \<le> length (window_vals (nat freq) data c i))) \<and>
                  (3 * freq \<le> 10 * int (length (window_vals (nat freq) data c i))
                     \<longrightarrow> vals out i c \<noteq> None))))"
proof -
  from assms have mp: "0 < (3 * freq) div 10" by linarith
  with assms have g: "get_variance freq data
      = rolling_reduce_var (nat freq, nat ((3 * freq) div 10)) data"
    by (simp add: get_variance_def rolling_def)
  have le: "nat ((3 * freq) div 10) \<le> k" if "3 * freq \<le> 10 * int k" for k
    using that by linarith
  show ?thesis
    unfolding g by (auto simp: rolling_reduce_var_def rolling_var_def Let_def le)
qed

theorem get_variance_emits_witness:
  "(\<exists>out. get_variance 5 \<lparr>time = [0, 1], vals = (\<lambda>i (c::unit). Some 1)\<rparr> = Inr out \<and>
     vals out 0 () \<noteq> None) \<and>
   get_variance 5 \<lparr>time = [], vals = (\<lambda>i (c::unit). Some 1)\<rparr> = Inl ValueError"
  using get_variance_emits [of 5 "\<lparr>time = [0, 1], vals = (\<lambda>i (c::unit). Some 1)\<rparr>"]
    get_variance_emits [of 5 "\<lparr>time = [], vals = (\<lambda>i (c::unit). Some 1)\<rparr>"]
  by (auto simp: window_vals_def)

text \<open>
  The claim as first stated fails three times: a window of three profiles makes the
  constructor of the rolling object raise, an array without a time point makes the
  reduction raise for every window, and with a window of five profiles a single sample
  (20 percent of the window) is enough for a value.
\<close>

theorem get_variance_emits_counterexample:
  "get_variance 3 \<lparr>time = [0], vals = (\<lambda>i (c::unit). Some 1)\<rparr> = Inl ValueError \<and>
   \<not> emits_iff_30_percent 3 \<lparr>time = [0], vals = (\<lambda>i (c::unit). Some 1)\<rparr> () 0 \<and>
   get_variance 10 \<lparr>time = [], vals = (\<lambda>i (c::unit). None)\<rparr> = Inl ValueError \<and>
   \<not> emits_iff_30_percent 5
       \<lparr>time = [0, 1, 2, 3, 4], vals = (\<lambda>i (c::unit). if i = 0 then Some 1 else None)\<rparr> () 0"
  by (simp add: emits_iff_30_percent_def get_variance_def rolling_def rolling_var_def
      rolling_reduce_var_def window_vals_def upt_rec Let_def)
section \<open>The geometry matrix\<close>

lemma get_m_matrix_Inr:
  assumes "length thetas = 5"
  shows "get_m_matrix phi thetas =
     Inr (map (\<lambda>t. m_matrix_line (deg2rad phi) (deg2rad t)) thetas @ [[0, 0, 1, 0, 0, 0]])"
proof -
  have v: "m_matrix_line (deg2rad 90) (deg2rad 0) = [0, 0, 1, 0, 0, 0]"
    by (simp add: m_matrix_line_def deg2rad_def)
  have "map (\<lambda>i. m_matrix_line (map deg2rad (map (\<lambda>a. 1 * phi) thetas @ [90]) ! i)
                 (map deg2rad (thetas @ [0]) ! i)) [0..<6]
      = map (\<lambda>t. m_matrix_line (deg2rad phi) (deg2rad t)) thetas @ [[0, 0, 1, 0, 0, 0]]"
    using assms by (intro nth_equalityI) (auto simp: nth_append v less_Suc_eq)
  with assms show ?thesis by (simp add: get_m_matrix_def Let_def)
qed

text \<open>
  C4.  With five slanted azimuths \<open>get_m_matrix\<close> builds a matrix of six lines: the line
  of the slanted beam of elevation \<open>\<phi>\<close> and azimuth \<open>\<theta>\<close> is
  \<open>(cos\<^sup>2\<phi> sin\<^sup>2\<theta>, cos\<^sup>2\<phi> cos\<^sup>2\<theta>, sin\<^sup>2\<phi>, 2 cos\<^sup>2\<phi> cos \<theta> sin \<theta>, 2 cos \<phi> sin \<phi> sin \<theta>, 2 cos \<phi> sin \<phi> cos \<theta>)\<close>,
  and the sixth line, built with 90 and 0 degrees for the vertical beam, is exactly
  \<open>(0, 0, 1, 0, 0, 0)\<close>.
\<close>

theorem get_m_matrix_lines:
  assumes "length thetas = 5"
  shows "\<exists>M. get_m_matrix phi thetas = Inr M \<and> length M = 6 \<and>
    (\<forall>i<5. M ! i =
       [(cos (deg2rad phi))\<^sup>2 * (sin (deg2rad (thetas ! i)))\<^sup>2,
        (cos (deg2rad phi))\<^sup>2 * (cos (deg2rad (thetas ! i)))\<^sup>2,
        (sin (deg2rad phi))\<^sup>2,
        2 * (cos (deg2rad phi))\<^sup>2 * cos (deg2rad (thetas ! i)) * sin (deg2rad (thetas ! i)),
        2 * cos (deg2rad phi) * sin (deg2rad phi) * sin (deg2rad (thetas ! i)),
        2 * cos (deg2rad phi) * sin (deg2rad phi) * cos (deg2rad (thetas ! i))]) \<and>
    M ! 5 = [0, 0, 1, 0, 0, 0]"
proof -
  have v: "m_matrix_line (deg2rad 90) (deg2rad 0) = [0, 0, 1, 0, 0, 0]"
    by (simp add: m_matrix_line_def deg2rad_def)
  show ?thesis
    using assms by (simp add: get_m_matrix_def Let_def nth_append v) (simp add: m_matrix_line_def)
qed

theorem get_m_matrix_lines_witness:
  "\<exists>M. get_m_matrix 75 [0, 72, 144, 216, 288] = Inr M \<and> M ! 5 = [0, 0, 1, 0, 0, 0]"
  using get_m_matrix_lines [of "[0, 72, 144, 216, 288]" 75] by auto

section \<open>Correctness of the matrix inversion\<close>

lemma fold_pivot:
  fixes A :: mat
  defines "f \<equiv> (\<lambda>j i p. if \<bar>A p j\<bar> < \<bar>A i j\<bar> then i else p)"
  shows "(fold (f j) xs p = p \<or> fold (f j) xs p \<in> set xs) \<and>
         \<bar>A p j\<bar> \<le> \<bar>A (fold (f j) xs p) j\<bar> \<and>
         (\<forall>i\<in>set xs. \<bar>A i j\<bar> \<le> \<bar>A (fold (f j) xs p) j\<bar>)"
proof (induction xs arbitrary: p)
  case Nil
  then show ?case by simp
next
  case (Cons x xs)
  show ?case
    using Cons.IH [of "f j x p"] by (auto simp: f_def split: if_splits)
qed

lemma pivot_row_props:
  assumes "j < n"
  shows "j \<le> pivot_row n j A" "pivot_row n j A < n"
    "\<And>i. j \<le> i \<Longrightarrow> i < n \<Longrightarrow> \<bar>A i j\<bar> \<le> \<bar>A (pivot_row n j A) j\<bar>"
proof -
  let ?r = "pivot_row n j A"
  note F = fold_pivot [of A j "[Suc j..<n]" j, folded pivot_row_def]
  from F assms show "j \<le> ?r" "?r < n" by auto
  fix i assume "j \<le> i" "i < n"
  then have "i = j \<or> i \<in> set [Suc j..<n]" by auto
  with F show "\<bar>A i j\<bar> \<le> \<bar>A ?r j\<bar>" by blast
qed

lemma pivot_row_zero:
  assumes "j < n" "A (pivot_row n j A) j = 0" "j \<le> i" "i < n"
  shows "A i j = 0"
  using pivot_row_props(3) [OF assms(1,3,4), of A] assms(2) by simp


lemma row_comb_swap:
  "row_comb n M A B \<Longrightarrow> j < n \<Longrightarrow> p < n \<Longrightarrow> row_comb n M (swap_rows j p A) (swap_rows j p B)"
  by (simp add: row_comb_def swap_rows_def)

lemma row_comb_scale:
  "row_comb n M A B \<Longrightarrow> row_comb n M (scale_row j c A) (scale_row j c B)"
  by (simp add: row_comb_def scale_row_def sum_distrib_left mult.assoc)

lemma row_comb_eliminate:
  "row_comb n M A B \<Longrightarrow> j < n \<Longrightarrow> row_comb n M (eliminate j m A) (eliminate j m B)"
  by (simp add: row_comb_def eliminate_def sum_subtractf sum_distrib_left left_diff_distrib
      mult.assoc)

lemma inj_mat_swap:
  assumes "inj_mat n B" "j < n" "p < n"
  shows "inj_mat n (swap_rows j p B)"
  unfolding inj_mat_def
proof (rule allI, rule impI)
  fix y
  assume z: "\<forall>i<n. (\<Sum>l<n. swap_rows j p B i l * y l) = 0"
  have "(\<Sum>l<n. B i l * y l) = 0" if "i < n" for i
  proof -
    consider "i = j" | "i = p" | "i \<noteq> j" "i \<noteq> p" by blast
    then show ?thesis
    proof cases
      case 1
      with z [rule_format, of p] assms show ?thesis by (simp add: swap_rows_def)
    next
      case 2
      with z [rule_format, of j] assms show ?thesis
        by (simp add: swap_rows_def split: if_splits)
    next
      case 3
      with z [rule_format, of i] that show ?thesis by (simp add: swap_rows_def)
    qed
  qed
  with assms(1) show "\<forall>l<n. y l = 0" by (simp add: inj_mat_def)
qed

lemma inj_mat_scale:
  assumes "inj_mat n B" "c \<noteq> 0"
  shows "inj_mat n (scale_row j c B)"
  unfolding inj_mat_def
proof (rule allI, rule impI)
  fix y
  assume z: "\<forall>i<n. (\<Sum>l<n. scale_row j c B i l * y l) = 0"
  have "(\<Sum>l<n. B i l * y l) = 0" if "i < n" for i
  proof (cases "i = j")
    case True
    from z [rule_format, OF that] True have "c * (\<Sum>l<n. B i l * y l) = 0"
      by (simp add: scale_row_def sum_distrib_left mult.assoc)
    with assms(2) show ?thesis by simp
  next
    case False
    with z [rule_format, OF that] show ?thesis by (simp add: scale_row_def)
  qed
  with assms(1) show "\<forall>l<n. y l = 0" by (simp add: inj_mat_def)
qed

lemma inj_mat_eliminate:
  assumes "inj_mat n B" "j < n"
  shows "inj_mat n (eliminate j m B)"
  unfolding inj_mat_def
proof (rule allI, rule impI)
  fix y
  assume z: "\<forall>i<n. (\<Sum>l<n. eliminate j m B i l * y l) = 0"
  from z [rule_format, OF assms(2)] have zj: "(\<Sum>l<n. B j l * y l) = 0"
    by (simp add: eliminate_def)
  have "(\<Sum>l<n. B i l * y l) = 0" if "i < n" for i
  proof (cases "i = j")
    case True
    with zj show ?thesis by simp
  next
    case False
    with z [rule_format, OF that]
    have "(\<Sum>l<n. B i l * y l) - m i * (\<Sum>l<n. B j l * y l) = 0"
      by (simp add: eliminate_def left_diff_distrib sum_subtractf sum_distrib_left mult.assoc)
    with zj show ?thesis by simp
  qed
  with assms(1) show "\<forall>l<n. y l = 0" by (simp add: inj_mat_def)
qed

lemma unit_cols_step:
  assumes u: "unit_cols n j A" and j: "j < n" and p: "j \<le> p" "p < n" and nz: "A p j \<noteq> 0"
  defines "A2 \<equiv> scale_row j (1 / swap_rows j p A j j) (swap_rows j p A)"
  shows "unit_cols n (Suc j) (eliminate j (\<lambda>i. A2 i j) A2)"
  unfolding unit_cols_def
proof (intro allI impI)
  fix i k
  assume i: "i < n" and k: "k < Suc j"
  have pk: "A p k' = 0" if "k' < j" for k'
    using u p that by (simp add: unit_cols_def)
  have jj: "A2 j j = 1"
    using nz by (auto simp: A2_def scale_row_def swap_rows_def)
  have jk: "A2 j k' = 0" if "k' < j" for k'
    using pk [OF that] by (simp add: A2_def scale_row_def swap_rows_def)
  have ik: "A2 i' k' = (if i' = k' then 1 else 0)" if "k' < j" "i' < n" "i' \<noteq> j" for i' k'
    using u that p j by (auto simp: A2_def scale_row_def swap_rows_def unit_cols_def)
  show "eliminate j (\<lambda>i. A2 i j) A2 i k = (if i = k then 1 else 0)"
  proof (cases "k = j")
    case True
    then show ?thesis using jj by (simp add: eliminate_def)
  next
    case False
    with k have kj: "k < j" by simp
    show ?thesis
    proof (cases "i = j")
      case True
      then show ?thesis using jk [OF kj] kj by (simp add: eliminate_def)
    next
      case False
      then show ?thesis using jk [OF kj] ik [OF kj i False] by (simp add: eliminate_def)
    qed
  qed
qed

lemma ginv_step:
  assumes "ginv n M j A B" "j < n" "A (pivot_row n j A) j \<noteq> 0"
  defines "p \<equiv> pivot_row n j A"
  defines "c \<equiv> 1 / swap_rows j p A j j"
  defines "A2 \<equiv> scale_row j c (swap_rows j p A)"
  defines "B2 \<equiv> scale_row j c (swap_rows j p B)"
  shows "ginv n M (Suc j) (eliminate j (\<lambda>i. A2 i j) A2) (eliminate j (\<lambda>i. A2 i j) B2)"
proof -
  have p: "j \<le> p" "p < n" using pivot_row_props(1,2) [OF assms(2)] by (simp_all add: p_def)
  have nz: "A p j \<noteq> 0" using assms(3) by (simp add: p_def)
  then have c: "c \<noteq> 0" by (auto simp: c_def swap_rows_def)
  from assms(1) have rc: "row_comb n M A B" and inj: "inj_mat n B" and u: "unit_cols n j A"
    by (simp_all add: ginv_def)
  have "row_comb n M (eliminate j (\<lambda>i. A2 i j) A2) (eliminate j (\<lambda>i. A2 i j) B2)"
    unfolding A2_def B2_def
    by (intro row_comb_eliminate row_comb_scale row_comb_swap rc assms(2) p)
  moreover have "inj_mat n (eliminate j (\<lambda>i. A2 i j) B2)"
    unfolding B2_def
    by (intro inj_mat_eliminate inj_mat_scale inj_mat_swap inj assms(2) p c)
  moreover have "unit_cols n (Suc j) (eliminate j (\<lambda>i. A2 i j) A2)"
    unfolding A2_def c_def by (rule unit_cols_step [OF u assms(2) p nz])
  ultimately show ?thesis by (simp add: ginv_def)
qed


lemma gauss_jordan_Some:
  "ginv n M j A B \<Longrightarrow> gauss_jordan n j A B = Some B' \<Longrightarrow> j \<le> n \<Longrightarrow> \<exists>A'. ginv n M n A' B'"
proof (induction n j A B rule: gauss_jordan.induct)
  case (1 n j A B)
  show ?case
  proof (cases "n \<le> j")
    case True
    with "1.prems" show ?thesis by (auto simp: gauss_jordan.simps [of n j])
  next
    case False
    then have j: "j < n" by simp
    let ?p = "pivot_row n j A"
    from "1.prems"(2) False have nz: "A ?p j \<noteq> 0"
      by (auto simp: gauss_jordan.simps [of n j] Let_def split: if_splits)
    let ?c = "1 / swap_rows j ?p A j j"
    let ?A2 = "scale_row j ?c (swap_rows j ?p A)"
    let ?B2 = "scale_row j ?c (swap_rows j ?p B)"
    let ?m = "\<lambda>i. ?A2 i j"
    have step: "ginv n M (Suc j) (eliminate j ?m ?A2) (eliminate j ?m ?B2)"
      by (rule ginv_step [OF "1.prems"(1) j nz])
    have run: "gauss_jordan n (Suc j) (eliminate j ?m ?A2) (eliminate j ?m ?B2) = Some B'"
      using "1.prems"(2) False nz by (simp add: gauss_jordan.simps [of n j] Let_def)
    show ?thesis
      by (rule "1.IH" [OF False refl nz refl refl refl refl refl refl step run]) (use j in simp)
  qed
qed

lemma kernel_of_zero_column:
  assumes g: "ginv n M j A B" and j: "j < n" and z: "\<And>i. j \<le> i \<Longrightarrow> i < n \<Longrightarrow> A i j = 0"
  shows "\<exists>x. (\<exists>k<n. x k \<noteq> 0) \<and> (\<forall>l<n. (\<Sum>k<n. M l k * x k) = 0)"
proof -
  define x :: "nat \<Rightarrow> real" where "x k = (if k = j then 1 else if k < j then - A k j else 0)" for k
  from g have rc: "row_comb n M A B" and inj: "inj_mat n B" and u: "unit_cols n j A"
    by (simp_all add: ginv_def)
  have Ax: "(\<Sum>k<n. A i k * x k) = 0" if i: "i < n" for i
  proof -
    have "A i k * x k = (if k = j then A i j else 0) + (if k = i then (if i < j then - A i j else 0) else 0)"
      if "k < n" for k
      using u i that by (auto simp: x_def unit_cols_def)
    then have "(\<Sum>k<n. A i k * x k)
        = (\<Sum>k<n. (if k = j then A i j else 0) + (if k = i then (if i < j then - A i j else 0) else 0))"
      by (intro sum.cong) simp_all
    also have "\<dots> = A i j + (if i < j then - A i j else 0)"
      using i j by (simp add: sum.distrib)
    also have "\<dots> = 0"
      using z [of i] i by simp
    finally show ?thesis .
  qed
  define y where "y l = (\<Sum>k<n. M l k * x k)" for l
  have "(\<Sum>l<n. B i l * y l) = 0" if i: "i < n" for i
  proof -
    have "(\<Sum>l<n. B i l * y l) = (\<Sum>l<n. \<Sum>k<n. B i l * M l k * x k)"
      by (simp add: y_def sum_distrib_left mult.assoc)
    also have "\<dots> = (\<Sum>k<n. \<Sum>l<n. B i l * M l k * x k)"
      by (rule sum.swap)
    also have "\<dots> = (\<Sum>k<n. A i k * x k)"
      using rc i by (simp add: row_comb_def sum_distrib_right)
    finally show ?thesis using Ax [OF i] by simp
  qed
  with inj have "\<forall>l<n. y l = 0" by (simp add: inj_mat_def)
  moreover have "x j \<noteq> 0" by (simp add: x_def)
  ultimately show ?thesis using j unfolding y_def by blast
qed

lemma gauss_jordan_None:
  "ginv n M j A B \<Longrightarrow> gauss_jordan n j A B = None \<Longrightarrow>
     \<exists>x. (\<exists>k<n. x k \<noteq> 0) \<and> (\<forall>l<n. (\<Sum>k<n. M l k * x k) = 0)"
proof (induction n j A B rule: gauss_jordan.induct)
  case (1 n j A B)
  from "1.prems"(2) have j: "j < n"
    by (auto simp: gauss_jordan.simps [of n j] split: if_splits)
  then have nj: "\<not> n \<le> j" by simp
  let ?p = "pivot_row n j A"
  show ?case
  proof (cases "A ?p j = 0")
    case True
    show ?thesis
      by (rule kernel_of_zero_column [OF "1.prems"(1) j]) (rule pivot_row_zero [where A = A, OF j True])
  next
    case nz: False
    let ?c = "1 / swap_rows j ?p A j j"
    let ?A2 = "scale_row j ?c (swap_rows j ?p A)"
    let ?B2 = "scale_row j ?c (swap_rows j ?p B)"
    let ?m = "\<lambda>i. ?A2 i j"
    have step: "ginv n M (Suc j) (eliminate j ?m ?A2) (eliminate j ?m ?B2)"
      by (rule ginv_step [OF "1.prems"(1) j nz])
    have run: "gauss_jordan n (Suc j) (eliminate j ?m ?A2) (eliminate j ?m ?B2) = None"
      using "1.prems"(2) nj nz by (simp add: gauss_jordan.simps [of n j] Let_def)
    show ?thesis
      by (rule "1.IH" [OF nj refl nz refl refl refl refl refl refl step run])
  qed
qed

lemma sum_kronecker:
  fixes f :: "nat \<Rightarrow> real"
  assumes "i < n"
  shows "(\<Sum>l<n. (if i = l then 1 else 0) * f l) = f i"
proof -
  have "(\<Sum>l<n. (if i = l then 1 else 0) * f l) = (\<Sum>l<n. if i = l then f l else 0)"
    by (intro sum.cong) auto
  with assms show ?thesis by simp
qed

lemma ginv_start: "ginv n M 0 M (\<lambda>i k. if i = k then 1 else 0)"
  by (auto simp: ginv_def row_comb_def inj_mat_def unit_cols_def sum_kronecker)

lemma ginv_final:
  assumes "ginv n M n A B" "i < n" "k < n"
  shows "(\<Sum>l<n. B i l * M l k) = (if i = k then 1 else 0)"
    and "(\<Sum>l<n. M i l * B l k) = (if i = k then 1 else 0)"
proof -
  from assms(1) have rc: "row_comb n M A B" and inj: "inj_mat n B" and u: "unit_cols n n A"
    by (simp_all add: ginv_def)
  have left: "(\<Sum>l<n. B i l * M l k) = (if i = k then 1 else 0)" if "i < n" "k < n" for i k
    using rc u that by (simp add: row_comb_def unit_cols_def)
  from left assms show "(\<Sum>l<n. B i l * M l k) = (if i = k then 1 else 0)" by simp
  define y where "y l = (\<Sum>m<n. M l m * B m k) - (if l = k then 1 else 0)" for l
  have "(\<Sum>l<n. B i l * y l) = 0" if i: "i < n" for i
  proof -
    have "B i l * y l = (\<Sum>m<n. B i l * M l m * B m k) - (if k = l then 1 else 0) * B i l" for l
      by (simp add: y_def right_diff_distrib sum_distrib_left mult.assoc)
    then have "(\<Sum>l<n. B i l * y l)
        = (\<Sum>l<n. \<Sum>m<n. B i l * M l m * B m k) - (\<Sum>l<n. (if k = l then 1 else 0) * B i l)"
      by (simp add: sum_subtractf)
    also have "(\<Sum>l<n. (if k = l then 1 else 0) * B i l) = B i k"
      by (rule sum_kronecker [OF assms(3)])
    also have "(\<Sum>l<n. \<Sum>m<n. B i l * M l m * B m k) = (\<Sum>m<n. \<Sum>l<n. B i l * M l m * B m k)"
      by (rule sum.swap)
    also have "\<dots> = (\<Sum>m<n. (if i = m then 1 else 0) * B m k)"
      using left [OF i] by (simp add: sum_distrib_right [symmetric])
    also have "\<dots> = B i k"
      by (rule sum_kronecker [OF i])
    finally show ?thesis by simp
  qed
  with inj have "\<forall>l<n. y l = 0" by (simp add: inj_mat_def)
  with assms(2) show "(\<Sum>l<n. M i l * B l k) = (if i = k then 1 else 0)"
    by (auto simp: y_def)
qed


lemma linalg_inv_Inr:
  assumes "linalg_inv M = Inr Bl"
  shows "length Bl = length M"
    and "\<And>i. i < length M \<Longrightarrow> length (Bl ! i) = length M"
    and "\<And>i k. i < length M \<Longrightarrow> k < length M \<Longrightarrow>
           (\<Sum>l<length M. Bl ! i ! l * M ! l ! k) = (if i = k then 1 else 0)"
    and "\<And>i k. i < length M \<Longrightarrow> k < length M \<Longrightarrow>
           (\<Sum>l<length M. M ! i ! l * Bl ! l ! k) = (if i = k then 1 else 0)"
proof -
  let ?n = "length M"
  let ?M = "\<lambda>i k. M ! i ! k"
  from assms obtain B where B: "gauss_jordan ?n 0 ?M (\<lambda>i k. if i = k then 1 else 0) = Some B"
    and Bl: "Bl = map (\<lambda>i. map (B i) [0..<?n]) [0..<?n]"
    by (auto simp: linalg_inv_def Let_def split: if_splits option.splits)
  from gauss_jordan_Some [OF ginv_start B] obtain A' where g: "ginv ?n ?M ?n A' B"
    by auto
  have nth: "Bl ! i ! l = B i l" if "i < ?n" "l < ?n" for i l
    using that by (simp add: Bl)
  show "length Bl = ?n" by (simp add: Bl)
  show "length (Bl ! i) = ?n" if "i < ?n" for i using that by (simp add: Bl)
  show "(\<Sum>l<?n. Bl ! i ! l * M ! l ! k) = (if i = k then 1 else 0)" if "i < ?n" "k < ?n" for i k
    using ginv_final(1) [OF g that] nth [OF that(1)] by simp
  show "(\<Sum>l<?n. M ! i ! l * Bl ! l ! k) = (if i = k then 1 else 0)" if "i < ?n" "k < ?n" for i k
    using ginv_final(2) [OF g that] nth [OF _ that(2)] by simp
qed

lemma linalg_inv_Inl:
  assumes "linalg_inv M = Inl e" and "\<And>row. row \<in> set M \<Longrightarrow> length row = length M"
  shows "\<exists>x. (\<exists>k<length M. x k \<noteq> 0) \<and> (\<forall>l<length M. (\<Sum>k<length M. M ! l ! k * x k) = 0)"
proof -
  from assms(2) have "\<not> list_ex (\<lambda>row. length row \<noteq> length M) M"
    by (auto simp: list_ex_iff)
  with assms(1) have "gauss_jordan (length M) 0 (\<lambda>i k. M ! i ! k) (\<lambda>i k. if i = k then 1 else 0) = None"
    by (auto simp: linalg_inv_def Let_def split: option.splits)
  from gauss_jordan_None [OF ginv_start this] show ?thesis .
qed

lemma linalg_inv_error: "linalg_inv M = Inl e \<Longrightarrow> e = LinAlgError"
  by (auto simp: linalg_inv_def Let_def split: if_splits option.splits)

section \<open>When the geometry matrix can be inverted\<close>

lemma trig_poly_identity:
  fixes a b d e f C S :: real
  assumes cs: "C\<^sup>2 + S\<^sup>2 = 1"
  defines "z \<equiv> Complex C S"
  shows "(of_real (b - a) + \<i> * of_real d) + (of_real (2 * f) + \<i> * of_real (2 * e)) * z
        + of_real (2 * (a + b)) * z^2 + (of_real (2 * f) - \<i> * of_real (2 * e)) * z^3
        + (of_real (b - a) - \<i> * of_real d) * z^4
       = 4 * z^2 * of_real (a * S\<^sup>2 + b * C\<^sup>2 + d * C * S + e * S + f * C)"
  unfolding z_def
  apply (simp add: complex_eq_iff power2_eq_square power3_eq_cube power4_eq_xxxx)
  using cs apply algebra
  done

lemma trig_coeff_sum:
  "(\<Sum>k\<le>4. trig_coeff a b d e f k * z ^ k) =
     (of_real (b - a) + \<i> * of_real d) + (of_real (2 * f) + \<i> * of_real (2 * e)) * z
        + of_real (2 * (a + b)) * z^2 + (of_real (2 * f) - \<i> * of_real (2 * e)) * z^3
        + (of_real (b - a) - \<i> * of_real d) * z^4"
  by (simp add: trig_coeff_def eval_nat_numeral)

lemma trig_poly_zero:
  fixes a b d e f :: real
  assumes roots: "\<And>t. t \<in> set ts \<Longrightarrow>
      a * (sin t)\<^sup>2 + b * (cos t)\<^sup>2 + d * cos t * sin t + e * sin t + f * cos t = 0"
    and dist: "distinct (map cis ts)" and len: "length ts = 5"
  shows "a = 0 \<and> b = 0 \<and> d = 0 \<and> e = 0 \<and> f = 0"
proof -
  let ?c = "trig_coeff a b d e f"
  let ?R = "{z. (\<Sum>k\<le>4. ?c k * z ^ k) = 0}"
  have sub: "set (map cis ts) \<subseteq> ?R"
  proof
    fix z assume "z \<in> set (map cis ts)"
    then obtain t where t: "t \<in> set ts" and z: "z = cis t" by auto
    have "z = Complex (cos t) (sin t)" by (simp add: z complex_eq_iff)
    with trig_poly_identity [of "cos t" "sin t" b a d f e] roots [OF t]
    show "z \<in> ?R" by (simp add: trig_coeff_sum)
  qed
  have card5: "card (set (map cis ts)) = 5"
    using distinct_card [OF dist] len by simp
  have all0: "?c k = 0" if "k \<le> 4" for k
  proof (rule ccontr)
    assume "?c k \<noteq> 0"
    from polyfun_rootbound [of ?c k 4, OF this that] have "finite ?R" "card ?R \<le> 4" by auto
    with sub card5 card_mono [of ?R "set (map cis ts)"] show False by simp
  qed
  from all0 [of 0] all0 [of 1] all0 [of 2] show ?thesis
    by (simp add: trig_coeff_def complex_eq_iff)
qed


lemma sum_lessThan_6:
  fixes g :: "nat \<Rightarrow> real"
  shows "(\<Sum>k<6. g k) = g 0 + g 1 + g 2 + g 3 + g 4 + g 5"
  by (simp add: eval_nat_numeral)

lemma m_matrix_kernel:
  assumes M: "get_m_matrix phi thetas = Inr M"
    and c: "cos (deg2rad phi) \<noteq> 0" and s: "sin (deg2rad phi) \<noteq> 0"
    and dist: "distinct (map (\<lambda>t. cis (deg2rad t)) thetas)"
    and ker: "\<And>l. l < 6 \<Longrightarrow> (\<Sum>k<6. M ! l ! k * x k) = 0"
  shows "x 0 = 0 \<and> x 1 = 0 \<and> x 2 = 0 \<and> x 3 = 0 \<and> x 4 = 0 \<and> x 5 = 0"
proof -
  let ?c = "cos (deg2rad phi)" and ?s = "sin (deg2rad phi)"
  from M have len: "length thetas = 5"
    by (auto simp: get_m_matrix_def Let_def split: if_splits)
  from M have Mdef: "M = map (\<lambda>t. m_matrix_line (deg2rad phi) (deg2rad t)) thetas @ [[0, 0, 1, 0, 0, 0]]"
    by (simp add: get_m_matrix_Inr [OF len])
  from ker [of 5] have x2: "x 2 = 0"
    by (simp add: Mdef nth_append len sum_lessThan_6)
  have root: "?c * x 0 * (sin t)\<^sup>2 + ?c * x 1 * (cos t)\<^sup>2 + 2 * ?c * x 3 * cos t * sin t
                + 2 * ?s * x 4 * sin t + 2 * ?s * x 5 * cos t = 0"
    if "t \<in> set (map deg2rad thetas)" for t
  proof -
    from that obtain i where i: "i < 5" and t: "t = deg2rad (thetas ! i)"
      by (auto simp: in_set_conv_nth len)
    from ker [of i] i have "?c * (?c * x 0 * (sin t)\<^sup>2 + ?c * x 1 * (cos t)\<^sup>2 + 2 * ?c * x 3 * cos t * sin t
                + 2 * ?s * x 4 * sin t + 2 * ?s * x 5 * cos t) = 0"
      by (simp add: Mdef nth_append len sum_lessThan_6 m_matrix_line_def t x2 power2_eq_square
          algebra_simps)
    with c show ?thesis by simp
  qed
  have "distinct (map cis (map deg2rad thetas))"
    using dist by (simp add: o_def)
  from trig_poly_zero [OF root this] len c s x2 show ?thesis by simp
qed

lemma cis_deg2rad_distinct:
  assumes "distinct thetas" and "\<And>t. t \<in> set thetas \<Longrightarrow> 0 \<le> t \<and> t < 360"
  shows "distinct (map (\<lambda>t. cis (deg2rad t)) thetas)"
proof -
  have "inj_on (\<lambda>t. cis (deg2rad t)) (set thetas)"
  proof (rule inj_onI)
    fix x y assume x: "x \<in> set thetas" and y: "y \<in> set thetas"
      and eq: "cis (deg2rad x) = cis (deg2rad y)"
    from eq have "sin (deg2rad x) = sin (deg2rad y) \<and> cos (deg2rad x) = cos (deg2rad y)"
      by (simp add: complex_eq_iff)
    then obtain n :: int where n: "deg2rad x = deg2rad y + 2 * pi * of_int n"
      using sin_cos_eq_iff by blast
    then have "x * pi = (y + 360 * of_int n) * pi"
      by (simp add: deg2rad_def field_simps)
    then have xy: "x = y + 360 * of_int n" by simp
    from assms(2) [OF x] assms(2) [OF y] xy have "- 1 < n" "n < 1"
      by linarith+
    then have "n = 0" by simp
    with xy show "x = y" by simp
  qed
  with assms(1) show ?thesis by (simp add: distinct_map)
qed

lemma get_m_matrix_inv_succeeds:
  assumes M: "get_m_matrix phi thetas = Inr M"
    and c: "cos (deg2rad phi) \<noteq> 0" and s: "sin (deg2rad phi) \<noteq> 0"
    and dist: "distinct (map (\<lambda>t. cis (deg2rad t)) thetas)"
  shows "\<exists>B. get_m_matrix_inv M = Inr B"
proof (rule ccontr)
  assume "\<not> ?thesis"
  then obtain e where e: "linalg_inv M = Inl e"
    by (cases "linalg_inv M") (auto simp: get_m_matrix_inv_def)
  from M have len: "length thetas = 5"
    by (auto simp: get_m_matrix_def Let_def split: if_splits)
  from M have Mdef: "M = map (\<lambda>t. m_matrix_line (deg2rad phi) (deg2rad t)) thetas @ [[0, 0, 1, 0, 0, 0]]"
    by (simp add: get_m_matrix_Inr [OF len])
  have lM: "length M = 6" by (simp add: Mdef len)
  have "length row = length M" if "row \<in> set M" for row
    using that by (auto simp: Mdef len m_matrix_line_def Let_def)
  from linalg_inv_Inl [OF e this] obtain x k where k: "k < 6" "x k \<noteq> 0"
    and ker: "\<forall>l<6. (\<Sum>k<6. M ! l ! k * x k) = 0"
    unfolding lM by blast
  from m_matrix_kernel [OF M c s dist, of x] ker have
    "x 0 = 0 \<and> x 1 = 0 \<and> x 2 = 0 \<and> x 3 = 0 \<and> x 4 = 0 \<and> x 5 = 0" by simp
  moreover from k(1) have "k = 0 \<or> k = 1 \<or> k = 2 \<or> k = 3 \<or> k = 4 \<or> k = 5" by linarith
  ultimately show False using k(2) by auto
qed

section \<open>The retrieved stress tensor\<close>

lemma linalg_inv_is_inverse: "linalg_inv M = Inr B \<Longrightarrow> is_inverse M B"
  using linalg_inv_Inr [of M B] by (simp add: is_inverse_def)

lemma equal_lines_singular:
  assumes "i < length M" "j < length M" "i \<noteq> j" "M ! i = M ! j"
  shows "\<not> is_inverse M B"
proof
  assume "is_inverse M B"
  then have "(\<Sum>l<length M. M ! i ! l * B ! l ! i) = 1" "(\<Sum>l<length M. M ! j ! l * B ! l ! i) = 0"
    using assms(1,2,3) by (auto simp: is_inverse_def)
  with assms(4) show False by simp
qed

lemma repeated_azimuth_singular:
  assumes M: "get_m_matrix phi thetas = Inr M" and nd: "\<not> distinct thetas"
  shows "\<not> is_inverse M B" and "get_m_matrix_inv M = Inl LinAlgError"
proof -
  from M have len: "length thetas = 5"
    by (auto simp: get_m_matrix_def Let_def split: if_splits)
  from M have Mdef: "M = map (\<lambda>t. m_matrix_line (deg2rad phi) (deg2rad t)) thetas @ [[0, 0, 1, 0, 0, 0]]"
    by (simp add: get_m_matrix_Inr [OF len])
  from nd obtain i j where ij: "i < length thetas" "j < length thetas" "i \<noteq> j" "thetas ! i = thetas ! j"
    by (auto simp: distinct_conv_nth)
  then have eq: "M ! i = M ! j" by (simp add: Mdef nth_append)
  have ns: "\<not> is_inverse M B'" for B'
    by (rule equal_lines_singular [OF _ _ ij(3) eq]) (use ij len in \<open>simp_all add: Mdef\<close>)
  then show "\<not> is_inverse M B" .
  show "get_m_matrix_inv M = Inl LinAlgError"
  proof (cases "linalg_inv M")
    case (Inl e)
    then show ?thesis using linalg_inv_error [OF Inl] by (simp add: get_m_matrix_inv_def)
  next
    case (Inr B')
    with ns [of B'] linalg_inv_is_inverse show ?thesis by blast
  qed
qed

lemma antipodal_pair_repeats:
  fixes thetas :: "real list"
  assumes "length thetas = 5" "set thetas \<subseteq> {t, u}"
  shows "\<not> distinct thetas"
proof
  assume "distinct thetas"
  then have "card (set thetas) = 5" using assms(1) by (simp add: distinct_card)
  moreover have "card (set thetas) \<le> card {t, u}"
    by (rule card_mono) (use assms(2) in simp_all)
  moreover have "card {t, u} \<le> 2" by (simp add: card_insert_if)
  ultimately show False by simp
qed

lemma elevation_cos_sin:
  assumes "0 < phi" "phi < 90"
  shows "cos (deg2rad phi) \<noteq> 0" "sin (deg2rad phi) \<noteq> 0"
proof -
  have "0 < deg2rad phi" "deg2rad phi < pi / 2"
    using assms by (simp_all add: deg2rad_def field_simps)
  then have "0 < cos (deg2rad phi)" "0 < sin (deg2rad phi)"
    by (auto intro!: cos_gt_zero_pi sin_gt_zero simp: field_simps)
  then show "cos (deg2rad phi) \<noteq> 0" "sin (deg2rad phi) \<noteq> 0" by simp_all
qed

lemma get_variance_Inr:
  assumes "4 \<le> f" and "time x \<noteq> []"
  shows "get_variance f x = Inr (rolling_var (nat f, nat ((3 * f) div 10)) x)"
proof -
  from assms have "0 < (3 * f) div 10" by linarith
  with assms show ?thesis by (simp add: get_variance_def rolling_def rolling_reduce_var_def)
qed

lemma calc_variances_succeeds:
  assumes "4 \<le> freq" "4 \<le> freq90"
    and "time (data_transf_90 d) \<noteq> []" and "distinct (time (data_transf d))"
  shows "calc_variances d freq freq90 =
     Inr \<lparr>rVariance = rolling_var (nat freq, nat ((3 * freq) div 10))
                         (interp_nearest (data_transf d) (time (data_transf_90 d))),
          rVariance90 = rolling_var (nat freq90, nat ((3 * freq90) div 10))
                         (times_minus_one (data_transf_90 d))\<rparr>"
proof -
  have t: "time (interp_nearest (data_transf d) (time (data_transf_90 d))) \<noteq> []"
    "time (times_minus_one (data_transf_90 d)) \<noteq> []"
    using assms(3) by (simp_all add: interp_nearest_def times_minus_one_def Let_def)
  show ?thesis
    using assms
    by (simp add: calc_variances_def interp_def get_variance_Inr [OF assms(1) t(1)]
        get_variance_Inr [OF assms(2) t(2)])
qed

lemma SixBeamMethod_Inr:
  assumes "SixBeamMethod (GetRestructuredData d) freq freq90 = Inr ds"
  obtains M B rv where "get_m_matrix (elv d) (azm d) = Inr M" "linalg_inv M = Inr B"
    "calc_variances d freq freq90 = Inr rv" "length (azm d) = 5"
    "ds = get_variance_ds (get_sigma B (get_s_matrix 5 rv)) rv"
proof -
  from assms obtain M B rv where a: "get_m_matrix (elv d) (azm d) = Inr M" "linalg_inv M = Inr B"
    "calc_variances d freq freq90 = Inr rv"
    "ds = get_variance_ds (get_sigma B (get_s_matrix (length (azm d)) rv)) rv"
    by (auto simp: SixBeamMethod_def get_m_matrix_inv_def split: sum.splits)
  from a(1) have "length (azm d) = 5"
    by (auto simp: get_m_matrix_def Let_def split: if_splits)
  with a that show ?thesis by simp
qed


lemma nan_dot_Some:
  assumes "length row = length ys"
  shows "nan_dot row (map Some ys) = Some (\<Sum>l<length ys. row ! l * ys ! l)"
  using assms
proof (induction row ys rule: list_induct2)
  case Nil
  then show ?case by simp
next
  case (Cons b row y ys)
  then show ?case by (simp add: sum.lessThan_Suc_shift del: sum.lessThan_Suc)
qed

lemma nan_dot_None:
  assumes "length row = length s" "None \<in> set s"
  shows "nan_dot row s = None"
  using assms
proof (induction row s rule: list_induct2)
  case Nil
  then show ?case by simp
next
  case (Cons b row v s)
  then show ?case by (cases v) (auto split: option.splits)
qed

text \<open>The line of the inverse that gives \<open>var_w\<close>.\<close>

lemma inverse_line_w:
  assumes M: "get_m_matrix phi thetas = Inr M" and B: "linalg_inv M = Inr B"
  shows "B ! 2 = [0, 0, 0, 0, 0, 1]"
proof -
  from M have len: "length thetas = 5"
    by (auto simp: get_m_matrix_def Let_def split: if_splits)
  from M have Mdef: "M = map (\<lambda>t. m_matrix_line (deg2rad phi) (deg2rad t)) thetas @ [[0, 0, 1, 0, 0, 0]]"
    by (simp add: get_m_matrix_Inr [OF len])
  have lM: "length M = 6" by (simp add: Mdef len)
  have M5: "M ! 5 = [0, 0, 1, 0, 0, 0]" by (simp add: Mdef nth_append len)
  note I = linalg_inv_Inr [OF B, unfolded lM]
  have "B ! 2 ! k = (if 5 = k then 1 else 0)" if "k < 6" for k
    using I(4) [of 5 k] that by (simp add: M5 sum_lessThan_6)
  moreover have "length (B ! 2) = 6" using I(2) [of 2] by simp
  ultimately have "B ! 2 = map (\<lambda>k. if 5 = k then 1 else 0) [0..<6]"
    by (intro nth_equalityI) simp_all
  then show ?thesis by (simp add: upt_rec)
qed


lemma nan_dot_unit_last:
  "nan_dot (replicate (length xs) 0 @ [1]) (xs @ [v]) = (if None \<in> set xs then None else v)"
proof (induction xs)
  case Nil
  then show ?case by (cases v) simp_all
next
  case (Cons x xs)
  then show ?case by (cases x; cases v) (auto split: option.splits)
qed

lemma var_w_value:
  assumes S: "SixBeamMethod (GetRestructuredData d) freq freq90 = Inr ds"
    and V: "calc_variances d freq freq90 = Inr rv"
  shows "vals (var_w ds) t r =
     (if \<forall>a<5. vals (rVariance rv) t (r, a) \<noteq> None then vals (rVariance90 rv) t r else None)"
proof -
  from S obtain M B rv' where M: "get_m_matrix (elv d) (azm d) = Inr M" and B: "linalg_inv M = Inr B"
    and V': "calc_variances d freq freq90 = Inr rv'"
    and ds: "ds = get_variance_ds (get_sigma B (get_s_matrix 5 rv')) rv'"
    by (rule SixBeamMethod_Inr)
  from V V' have rv: "rv' = rv" by simp
  from M have "length M = 6" by (auto simp: get_m_matrix_def Let_def split: if_splits)
  with linalg_inv_Inr(1) [OF B] have lB: "length B = 6" by simp
  have "vals (var_w ds) t r = nan_dot (B ! 2) (get_s_matrix 5 rv t r)"
    by (simp add: ds rv get_variance_ds_def get_sigma_def lB)
  also have "\<dots> = (if \<forall>a<5. vals (rVariance rv) t (r, a) \<noteq> None
                    then vals (rVariance90 rv) t r else None)"
  proof -
    let ?xs = "map (\<lambda>a. vals (rVariance rv) t (r, a)) [0..<5]"
    have "[0, 0, 0, 0, 0, 1] = replicate (length ?xs) 0 @ [1::real]"
      by (simp add: eval_nat_numeral)
    moreover have "None \<in> set ?xs \<longleftrightarrow> \<not> (\<forall>a<5. vals (rVariance rv) t (r, a) \<noteq> None)"
      by (force simp: image_iff)
    ultimately show ?thesis
      unfolding inverse_line_w [OF M B] get_s_matrix_def
      by (simp only: nan_dot_unit_last) auto
  qed
  finally show ?thesis .
qed

lemma nanvar_nonneg: "0 \<le> nanvar ys"
proof -
  have "0 \<le> sum_list (map (\<lambda>y. (y - m)\<^sup>2) ys)" for m :: real
    by (rule sum_list_nonneg) auto
  then show ?thesis by (simp add: nanvar_def Let_def)
qed

lemma get_variance_nonneg:
  assumes "get_variance f x = Inr v" "vals v t c = Some y"
  shows "0 \<le> y"
  using assms nanvar_nonneg
  by (auto simp: get_variance_def rolling_def rolling_reduce_var_def rolling_var_def Let_def
      split: if_splits sum.splits)

lemma calc_variances_nonneg:
  assumes "calc_variances d freq freq90 = Inr rv"
  shows "vals (rVariance rv) t c = Some y \<Longrightarrow> 0 \<le> y"
    and "vals (rVariance90 rv) t r = Some y \<Longrightarrow> 0 \<le> y"
proof -
  from assms obtain x v v90 where
    v: "get_variance freq x = Inr v"
    and v90: "get_variance freq90 (times_minus_one (data_transf_90 d)) = Inr v90"
    and rv: "rv = \<lparr>rVariance = v, rVariance90 = v90\<rparr>"
    by (auto simp: calc_variances_def Let_def split: sum.splits)
  show "vals (rVariance rv) t c = Some y \<Longrightarrow> 0 \<le> y"
    using get_variance_nonneg [OF v] by (simp add: rv)
  show "vals (rVariance90 rv) t r = Some y \<Longrightarrow> 0 \<le> y"
    using get_variance_nonneg [OF v90] by (simp add: rv)
qed

lemma sigma_recovers:
  assumes B: "linalg_inv M = Inr B" and lM: "length M = 6" and i: "i < 6"
  shows "nan_dot (B ! i) (map (\<lambda>l. Some (\<Sum>k<6. M ! l ! k * x k)) [0..<6]) = Some (x i)"
proof -
  note I = linalg_inv_Inr [OF B, unfolded lM]
  let ?ys = "map (\<lambda>l. \<Sum>k<6. M ! l ! k * x k) [0..<6]"
  have "nan_dot (B ! i) (map Some ?ys) = Some (\<Sum>l<length ?ys. B ! i ! l * ?ys ! l)"
    by (rule nan_dot_Some) (simp add: I(2) [OF i])
  also have "(\<Sum>l<length ?ys. B ! i ! l * ?ys ! l) = (\<Sum>l<6. \<Sum>k<6. B ! i ! l * M ! l ! k * x k)"
    by (simp add: sum_distrib_left mult.assoc)
  also have "\<dots> = (\<Sum>k<6. \<Sum>l<6. B ! i ! l * M ! l ! k * x k)"
    by (rule sum.swap)
  also have "\<dots> = (\<Sum>k<6. (if i = k then 1 else 0) * x k)"
    using I(3) [OF i] by (simp add: sum_distrib_right [symmetric])
  also have "\<dots> = x i"
    by (rule sum_kronecker [OF i])
  finally show ?thesis by (simp add: o_def)
qed

lemma sort_key_0123: "sort_key (\<lambda>i. [0, 1, 2, 3 :: real] ! i) [0..<4] = [0, 1, 2, 3]"
  by (simp add: upt_rec)

lemma interp_same_times:
  assumes "time da = [0, 1, 2, 3]" "i < 4"
  shows "vals (interp_nearest da [0, 1, 2, 3]) i c = vals da i c"
proof -
  from assms(2) have "i = 0 \<or> i = 1 \<or> i = 2 \<or> i = 3" by linarith
  then show ?thesis
    by (auto simp: interp_nearest_def sortby_time_def assms(1) sort_key_0123 Let_def
        nearest_index_def eval_nat_numeral)
qed

lemma window_full:
  assumes "time da = [0, 1, 2, 3]"
  shows "window_vals 4 da c 2 = present [vals da 0 c, vals da 1 c, vals da 2 c, vals da 3 c]"
  by (simp add: window_vals_def assms upt_rec) (simp add: numeral_2_eq_2 numeral_3_eq_3)

lemma nanvar_alternating: "nanvar [a, - a, a, - a] = a\<^sup>2"
  by (simp add: nanvar_def Let_def power2_eq_square)

lemma SixBeamMethod_succeeds:
  assumes len: "length (azm d) = 5" and dist: "distinct (azm d)"
    and rng: "\<And>t. t \<in> set (azm d) \<Longrightarrow> 0 \<le> t \<and> t < 360"
    and el: "0 < elv d" "elv d < 90" and fr: "4 \<le> freq" "4 \<le> freq90"
    and tm: "time (data_transf_90 d) \<noteq> []" "distinct (time (data_transf d))"
  obtains M B rv where "get_m_matrix (elv d) (azm d) = Inr M" "linalg_inv M = Inr B"
    "calc_variances d freq freq90 = Inr rv"
    "SixBeamMethod (GetRestructuredData d) freq freq90
       = Inr (get_variance_ds (get_sigma B (get_s_matrix 5 rv)) rv)"
proof -
  let ?M = "map (\<lambda>t. m_matrix_line (deg2rad (elv d)) (deg2rad t)) (azm d) @ [[0, 0, 1, 0, 0, 0]]"
  have M: "get_m_matrix (elv d) (azm d) = Inr ?M" by (rule get_m_matrix_Inr [OF len])
  from get_m_matrix_inv_succeeds [OF M elevation_cos_sin [OF el] cis_deg2rad_distinct [OF dist rng]]
  obtain B where B: "linalg_inv ?M = Inr B" by (auto simp: get_m_matrix_inv_def)
  note V = calc_variances_succeeds [OF fr tm]
  have "SixBeamMethod (GetRestructuredData d) freq freq90
       = Inr (get_variance_ds (get_sigma B (get_s_matrix 5 (projr (calc_variances d freq freq90))))
               (projr (calc_variances d freq freq90)))"
    unfolding V by (simp add: SixBeamMethod_def M get_m_matrix_inv_def B V len)
  with M B V that show ?thesis by simp
qed

lemma rolling_alternating:
  assumes t: "time da = [0, 1, 2, 3]" and v: "\<And>j. j < 4 \<Longrightarrow> vals da j c = Some ((- 1) ^ j * a)"
  shows "vals (rolling_var (4, Suc 0) da) 2 c = Some (a\<^sup>2)"
proof -
  have "window_vals 4 da c 2 = [a, - a, a, - a]"
    by (simp add: window_full [OF t] v)
  then show ?thesis
    by (simp add: rolling_var_def t nanvar_alternating)
qed

lemma consistent_scan_variances:
  assumes "calc_variances consistent_scan 4 4 = Inr rv"
  shows "a < 5 \<Longrightarrow> vals (rVariance rv) 2 (r, a)
           = Some ((cos (deg2rad 75) * cos (deg2rad ([0, 72, 144, 216, 288] ! a)))\<^sup>2)"
    and "vals (rVariance90 rv) 2 r = Some ((cos (deg2rad 75) / sin (deg2rad 75))\<^sup>2)"
proof -
  have rv: "rv = \<lparr>rVariance = rolling_var (4, Suc 0)
                       (interp_nearest (data_transf consistent_scan) [0, 1, 2, 3]),
                  rVariance90 = rolling_var (4, Suc 0)
                       (times_minus_one (data_transf_90 consistent_scan))\<rparr>"
    using assms calc_variances_succeeds [of 4 4 consistent_scan]
    by (simp add: consistent_scan_def)
  show "vals (rVariance rv) 2 (r, a)
     = Some ((cos (deg2rad 75) * cos (deg2rad ([0, 72, 144, 216, 288] ! a)))\<^sup>2)" if "a < 5"
  proof -
    let ?da = "interp_nearest (data_transf consistent_scan) [0, 1, 2, 3]"
    have t: "time ?da = [0, 1, 2, 3]" by (simp add: interp_nearest_def Let_def)
    have "vals ?da j (r, a)
        = Some ((- 1) ^ j * (cos (deg2rad 75) * cos (deg2rad ([0, 72, 144, 216, 288] ! a))))"
      if "j < 4" for j
      using interp_same_times [of "data_transf consistent_scan" j "(r, a)"] that \<open>a < 5\<close>
      by (simp add: consistent_scan_def)
    from rolling_alternating [OF t this] show ?thesis by (simp add: rv)
  qed
  have "vals (rolling_var (4, Suc 0) (times_minus_one (data_transf_90 consistent_scan))) 2 r
      = Some ((- (cos (deg2rad 75) / sin (deg2rad 75)))\<^sup>2)"
    by (rule rolling_alternating) (simp_all add: times_minus_one_def consistent_scan_def)
  then show "vals (rVariance90 rv) 2 r = Some ((cos (deg2rad 75) / sin (deg2rad 75))\<^sup>2)"
    by (simp add: rv)
qed

lemma consistent_scan_geometry:
  "length (azm consistent_scan) = 5" "distinct (azm consistent_scan)"
  "\<And>t. t \<in> set (azm consistent_scan) \<Longrightarrow> 0 \<le> t \<and> t < 360"
  "0 < elv consistent_scan" "elv consistent_scan < 90"
  by (auto simp: consistent_scan_def)

lemma gappy_scan_geometry:
  "length (azm gappy_scan) = 5" "distinct (azm gappy_scan)"
  "\<And>t. t \<in> set (azm gappy_scan) \<Longrightarrow> 0 \<le> t \<and> t < 360"
  "0 < elv gappy_scan" "elv gappy_scan < 90"
  by (auto simp: gappy_scan_def)

lemma consistent_scan_sigma:
  assumes M: "get_m_matrix (elv consistent_scan) (azm consistent_scan) = Inr M"
    and B: "linalg_inv M = Inr B"
    and V: "calc_variances consistent_scan 4 4 = Inr rv"
    and i: "i < 6"
  shows "get_sigma B (get_s_matrix 5 rv) 2 r ! i
           = Some ([- 1, 0, (cos (deg2rad 75) / sin (deg2rad 75))\<^sup>2, 0, 0, 0] ! i)"
proof -
  let ?c = "cos (deg2rad 75)" and ?s = "sin (deg2rad 75)"
  let ?az = "[0, 72, 144, 216, 288 :: real]"
  define x :: "nat \<Rightarrow> real" where "x k = [- 1, 0, (?c / ?s)\<^sup>2, 0, 0, 0] ! k" for k
  have s0: "?s \<noteq> 0" by (rule elevation_cos_sin) simp_all
  have Mdef: "M = map (\<lambda>t. m_matrix_line (deg2rad 75) (deg2rad t)) ?az @ [[0, 0, 1, 0, 0, 0]]"
    using M get_m_matrix_Inr [of ?az 75] by (simp add: consistent_scan_def)
  have lM: "length M = 6" by (simp add: Mdef)
  have Ml: "M ! l = m_matrix_line (deg2rad 75) (deg2rad (?az ! l))" if "l < 5" for l
    unfolding Mdef using that by (simp add: nth_append del: list.map)
  have M5: "M ! 5 = [0, 0, 1, 0, 0, 0]" by (simp add: Mdef)
  from linalg_inv_Inr(1) [OF B] lM have lB: "length B = 6" by simp
  have slant: "(\<Sum>k<6. m_matrix_line (deg2rad 75) t ! k * x k) = (?c * cos t)\<^sup>2" for t
  proof -
    have "?s\<^sup>2 * (?c / ?s)\<^sup>2 = ?c\<^sup>2" using s0 by (simp add: power_divide)
    then have "- ((cos (deg2rad 75))\<^sup>2 * (sin t)\<^sup>2) + ?s\<^sup>2 * (?c / ?s)\<^sup>2 = (?c * cos t)\<^sup>2"
      by (simp add: sin_squared_eq power_mult_distrib algebra_simps)
    then show ?thesis
      by (simp add: sum_lessThan_6 m_matrix_line_def x_def)
  qed
  have S: "get_s_matrix 5 rv 2 r = map (\<lambda>l. Some (\<Sum>k<6. M ! l ! k * x k)) [0..<6]"
  proof (rule nth_equalityI)
    show "length (get_s_matrix 5 rv 2 r) = length (map (\<lambda>l. Some (\<Sum>k<6. M ! l ! k * x k)) [0..<6])"
      by (simp add: get_s_matrix_def)
    fix l assume "l < length (get_s_matrix 5 rv 2 r)"
    then have l: "l < 6" by (simp add: get_s_matrix_def)
    show "get_s_matrix 5 rv 2 r ! l = map (\<lambda>l. Some (\<Sum>k<6. M ! l ! k * x k)) [0..<6] ! l"
    proof (cases "l < 5")
      case True
      then show ?thesis
        using consistent_scan_variances(1) [OF V True, of r] l
        by (simp add: get_s_matrix_def nth_append Ml slant)
    next
      case False
      with l have "l = 5" by simp
      then show ?thesis
        using consistent_scan_variances(2) [OF V, of r]
        by (simp add: get_s_matrix_def nth_append M5 sum_lessThan_6 x_def)
    qed
  qed
  show ?thesis
    using sigma_recovers [OF B lM i, of x] i by (simp add: get_sigma_def S lB x_def)
qed

lemma gappy_scan_variances:
  assumes "calc_variances gappy_scan 4 4 = Inr rv"
  shows "vals (rVariance rv) 2 (r, a) = None" and "vals (rVariance90 rv) 2 r = Some 0"
proof -
  have rv: "rv = \<lparr>rVariance = rolling_var (4, Suc 0)
                       (interp_nearest (data_transf gappy_scan) [0, 1, 2, 3]),
                  rVariance90 = rolling_var (4, Suc 0)
                       (times_minus_one (data_transf_90 gappy_scan))\<rparr>"
    using assms calc_variances_succeeds [of 4 4 gappy_scan]
    by (simp add: gappy_scan_def)
  let ?da = "interp_nearest (data_transf gappy_scan) [0, 1, 2, 3]"
  have t: "time ?da = [0, 1, 2, 3]" by (simp add: interp_nearest_def Let_def)
  have "vals ?da j (r, a) = None" if "j < 4" for j
    using interp_same_times [of "data_transf gappy_scan" j "(r, a)"] that
    by (simp add: gappy_scan_def)
  then have "window_vals 4 ?da (r, a) 2 = []"
    by (simp add: window_full [OF t])
  then show "vals (rVariance rv) 2 (r, a) = None"
    by (simp add: rv rolling_var_def t)
  have "vals (rolling_var (4, Suc 0) (times_minus_one (data_transf_90 gappy_scan))) 2 r
      = Some ((- 1)\<^sup>2 - 1)"
    by (simp add: rolling_var_def window_full times_minus_one_def gappy_scan_def nanvar_def)
  then show "vals (rVariance90 rv) 2 r = Some 0"
    by (simp add: rv)
qed

section \<open>Claims on the six-beam retrieval\<close>

text \<open>
  C5.  Five distinct slanted azimuths in \<open>[0, 360)\<close> at a fixed elevation strictly
  between 0 and 90 degrees give a geometry matrix that is non-singular, and the inversion
  step succeeds with its inverse.  Five azimuths that are not distinct, in particular
  five identical ones and five that lie on one pair of opposite directions, give a
  singular matrix: it has no inverse, the inversion step fails, and the whole retrieval
  ends with that error, whatever the observations and the windows.
\<close>

theorem geometry_matrix_inversion:
  assumes "length thetas = 5"
  shows "(distinct thetas \<and> (\<forall>t\<in>set thetas. 0 \<le> t \<and> t < 360) \<and> 0 < phi \<and> phi < 90 \<longrightarrow>
            (\<exists>M B. get_m_matrix phi thetas = Inr M \<and> get_m_matrix_inv M = Inr B \<and>
                   is_inverse M B)) \<and>
         (\<not> distinct thetas \<or> (\<exists>t. set thetas \<subseteq> {t, t + 180}) \<longrightarrow>
            (\<exists>M. get_m_matrix phi thetas = Inr M \<and> (\<forall>B. \<not> is_inverse M B) \<and>
                 get_m_matrix_inv M = Inl LinAlgError \<and>
                 (\<forall>d freq freq90. elv d = phi \<and> azm d = thetas \<longrightarrow>
                    SixBeamMethod (GetRestructuredData d) freq freq90 = Inl LinAlgError)))"
proof (intro conjI impI)
  let ?M = "map (\<lambda>t. m_matrix_line (deg2rad phi) (deg2rad t)) thetas @ [[0, 0, 1, 0, 0, 0]]"
  have M: "get_m_matrix phi thetas = Inr ?M" by (rule get_m_matrix_Inr [OF assms])
  {
    assume a: "distinct thetas \<and> (\<forall>t\<in>set thetas. 0 \<le> t \<and> t < 360) \<and> 0 < phi \<and> phi < 90"
    then have "distinct (map (\<lambda>t. cis (deg2rad t)) thetas)"
      by (intro cis_deg2rad_distinct) auto
    from get_m_matrix_inv_succeeds [OF M elevation_cos_sin this] a
    obtain B where B: "get_m_matrix_inv ?M = Inr B" by auto
    then have "is_inverse ?M B"
      by (simp add: get_m_matrix_inv_def linalg_inv_is_inverse)
    with M B show "\<exists>M B. get_m_matrix phi thetas = Inr M \<and> get_m_matrix_inv M = Inr B \<and>
                   is_inverse M B" by blast
  }
  {
    assume "\<not> distinct thetas \<or> (\<exists>t. set thetas \<subseteq> {t, t + 180})"
    then have nd: "\<not> distinct thetas"
      using antipodal_pair_repeats [OF assms] by blast
    note R = repeated_azimuth_singular [OF M nd]
    have "SixBeamMethod (GetRestructuredData d) freq freq90 = Inl LinAlgError"
      if "elv d = phi \<and> azm d = thetas" for d freq freq90
      using that M R(2) by (simp add: SixBeamMethod_def)
    with M R show "\<exists>M. get_m_matrix phi thetas = Inr M \<and> (\<forall>B. \<not> is_inverse M B) \<and>
                 get_m_matrix_inv M = Inl LinAlgError \<and>
                 (\<forall>d freq freq90. elv d = phi \<and> azm d = thetas \<longrightarrow>
                    SixBeamMethod (GetRestructuredData d) freq freq90 = Inl LinAlgError)"
      by blast
  }
qed

theorem geometry_matrix_inversion_witness:
  "(\<exists>M B. get_m_matrix 75 [0, 72, 144, 216, 288] = Inr M \<and> get_m_matrix_inv M = Inr B \<and>
          is_inverse M B) \<and>
   (\<exists>M B. get_m_matrix 45 [0, 90, 180, 270, 45] = Inr M \<and> get_m_matrix_inv M = Inr B \<and>
          is_inverse M B) \<and>
   (\<exists>M. get_m_matrix 75 [0, 180, 0, 180, 0] = Inr M \<and> get_m_matrix_inv M = Inl LinAlgError) \<and>
   SixBeamMethod (GetRestructuredData (consistent_scan\<lparr>azm := [72, 72, 72, 72, 72]\<rparr>)) 10 10
     = Inl LinAlgError"
proof -
  have 1: "\<exists>M B. get_m_matrix 75 [0, 72, 144, 216, 288] = Inr M \<and> get_m_matrix_inv M = Inr B \<and>
          is_inverse M B"
    using geometry_matrix_inversion [of "[0, 72, 144, 216, 288]" 75, THEN conjunct1] by simp
  have 2: "\<exists>M B. get_m_matrix 45 [0, 90, 180, 270, 45] = Inr M \<and> get_m_matrix_inv M = Inr B \<and>
          is_inverse M B"
    using geometry_matrix_inversion [of "[0, 90, 180, 270, 45]" 45, THEN conjunct1] by simp
  have "set [0, 180, 0, 180, 0 :: real] \<subseteq> {0, 0 + 180}" by simp
  then have "\<exists>t. set [0, 180, 0, 180, 0 :: real] \<subseteq> {t, t + 180}" by (rule exI)
  with geometry_matrix_inversion [of "[0, 180, 0, 180, 0]" 75, THEN conjunct2]
  have 3: "\<exists>M. get_m_matrix 75 [0, 180, 0, 180, 0] = Inr M \<and> get_m_matrix_inv M = Inl LinAlgError"
    by fastforce
  have "\<not> distinct [72, 72, 72, 72, 72 :: real]" by simp
  with geometry_matrix_inversion [of "[72, 72, 72, 72, 72]" 75, THEN conjunct2]
  have "\<forall>d freq freq90. elv d = 75 \<and> azm d = [72, 72, 72, 72, 72] \<longrightarrow>
          SixBeamMethod (GetRestructuredData d) freq freq90 = Inl LinAlgError"
    by fastforce
  from this [rule_format, of "consistent_scan\<lparr>azm := [72, 72, 72, 72, 72]\<rparr>" 10 10]
  have 4: "SixBeamMethod (GetRestructuredData (consistent_scan\<lparr>azm := [72, 72, 72, 72, 72]\<rparr>)) 10 10
     = Inl LinAlgError"
    by (simp add: consistent_scan_def)
  from 1 2 3 4 show ?thesis by blast
qed

text \<open>
  C9, as amended.  In exact arithmetic the vertical-beam line of the geometry matrix is
  \<open>(0, 0, 1, 0, 0, 0)\<close>, and the retrieved \<open>var_w\<close> equals the windowed variance of the
  vertical-beam series (\<open>rVariance90\<close>) at every (time, range) cell at which the five
  slanted-beam variances are present, whatever their values; at a cell at which one of
  them is missing, \<open>var_w\<close> is missing.
\<close>

theorem var_w_is_vertical_variance:
  assumes "SixBeamMethod (GetRestructuredData d) freq freq90 = Inr ds"
    and "calc_variances d freq freq90 = Inr rv"
  shows "vals (var_w ds) t r =
     (if \<forall>a<5. vals (rVariance rv) t (r, a) \<noteq> None then vals (rVariance90 rv) t r else None)"
  using assms by (rule var_w_value)

theorem var_w_is_vertical_variance_witness:
  "(case SixBeamMethod (GetRestructuredData consistent_scan) 4 4 of
      Inr ds \<Rightarrow>
        (case calc_variances consistent_scan 4 4 of
           Inr rv \<Rightarrow> vals (var_w ds) 2 0 = vals (rVariance90 rv) 2 0 \<and>
                    vals (rVariance90 rv) 2 0 = Some ((cos (deg2rad 75) / sin (deg2rad 75))\<^sup>2)
         | Inl e \<Rightarrow> False)
    | Inl e \<Rightarrow> False)"
proof -
  obtain M B rv where V: "calc_variances consistent_scan 4 4 = Inr rv"
    and S: "SixBeamMethod (GetRestructuredData consistent_scan) 4 4
       = Inr (get_variance_ds (get_sigma B (get_s_matrix 5 rv)) rv)"
    by (rule SixBeamMethod_succeeds [OF consistent_scan_geometry, of 4 4])
       (simp_all add: consistent_scan_def)
  show ?thesis
    using var_w_is_vertical_variance [OF S V, of 2 0] consistent_scan_variances [OF V]
    by (simp add: S V)
qed

text \<open>
  The claim as first stated fails at a cell where the slanted beams have no variance:
  there \<open>var_w\<close> is missing although the variance of the vertical beam is not.
\<close>

theorem var_w_is_vertical_variance_counterexample:
  "(case SixBeamMethod (GetRestructuredData gappy_scan) 4 4 of
      Inr ds \<Rightarrow>
        (case calc_variances gappy_scan 4 4 of
           Inr rv \<Rightarrow> vals (var_w ds) 2 0 = None \<and> vals (rVariance90 rv) 2 0 = Some 0
         | Inl e \<Rightarrow> False)
    | Inl e \<Rightarrow> False)"
proof -
  obtain M B rv where V: "calc_variances gappy_scan 4 4 = Inr rv"
    and S: "SixBeamMethod (GetRestructuredData gappy_scan) 4 4
       = Inr (get_variance_ds (get_sigma B (get_s_matrix 5 rv)) rv)"
    by (rule SixBeamMethod_succeeds [OF gappy_scan_geometry, of 4 4])
       (simp_all add: gappy_scan_def)
  have "\<not> (\<forall>a<5. vals (rVariance rv) 2 (0, a) \<noteq> None)"
    using gappy_scan_variances(1) [OF V, of 0 0] by (intro notI) force
  with var_w_value [OF S V, of 2 0] have "vals (var_w (get_variance_ds (get_sigma B (get_s_matrix 5 rv)) rv)) 2 0 = None"
    by (simp only: if_False)
  then show ?thesis
    using gappy_scan_variances(2) [OF V, of 0] by (simp add: S V)
qed

text \<open>
  C2, as amended.  For every input accepted by \<open>SixBeamMethod\<close> the retrieved \<open>var_w\<close>
  is non-negative at every (time, range) cell where it is defined.  The components
  \<open>var_u\<close> and \<open>var_v\<close> combine the six windowed variances with coefficients of both
  signs and can be negative.
\<close>

theorem var_w_nonneg:
  assumes "SixBeamMethod (GetRestructuredData d) freq freq90 = Inr ds"
    and "vals (var_w ds) t r = Some v"
  shows "0 \<le> v"
proof -
  from assms(1) obtain rv where V: "calc_variances d freq freq90 = Inr rv"
    by (rule SixBeamMethod_Inr)
  have "vals (rVariance90 rv) t r = Some v"
  proof (cases "\<forall>a<5. vals (rVariance rv) t (r, a) \<noteq> None")
    case True
    with var_w_value [OF assms(1) V, of t r] assms(2) show ?thesis by simp
  next
    case False
    with var_w_value [OF assms(1) V, of t r] have "vals (var_w ds) t r = None"
      by (simp only: if_False)
    with assms(2) show ?thesis by simp
  qed
  then show ?thesis by (rule calc_variances_nonneg(2) [OF V])
qed

theorem var_w_nonneg_witness:
  "(case SixBeamMethod (GetRestructuredData consistent_scan) 4 4 of
      Inr ds \<Rightarrow> (case vals (var_w ds) 2 0 of Some v \<Rightarrow> 0 \<le> v | None \<Rightarrow> False)
    | Inl e \<Rightarrow> False)"
proof -
  obtain M B rv where V: "calc_variances consistent_scan 4 4 = Inr rv"
    and S: "SixBeamMethod (GetRestructuredData consistent_scan) 4 4
       = Inr (get_variance_ds (get_sigma B (get_s_matrix 5 rv)) rv)"
    by (rule SixBeamMethod_succeeds [OF consistent_scan_geometry, of 4 4])
       (simp_all add: consistent_scan_def)
  let ?ds = "get_variance_ds (get_sigma B (get_s_matrix 5 rv)) rv"
  have w: "vals (var_w ?ds) 2 0 = Some ((cos (deg2rad 75) / sin (deg2rad 75))\<^sup>2)"
    using var_w_value [OF S V, of 2 0] consistent_scan_variances [OF V] by simp
  from var_w_nonneg [OF S w] show ?thesis by (simp add: S w)
qed

text \<open>
  The claim as first stated fails for \<open>var_u\<close>: the alternating scan has the six
  windowed variances of the tensor with \<open>var_u = -1\<close>, and the retrieval returns it.
\<close>

theorem var_u_negative_counterexample:
  "(case SixBeamMethod (GetRestructuredData consistent_scan) 4 4 of
      Inr ds \<Rightarrow> vals (var_u ds) 2 0 = Some (- 1)
    | Inl e \<Rightarrow> False)"
proof -
  obtain M B rv where M: "get_m_matrix (elv consistent_scan) (azm consistent_scan) = Inr M"
    and B: "linalg_inv M = Inr B" and V: "calc_variances consistent_scan 4 4 = Inr rv"
    and S: "SixBeamMethod (GetRestructuredData consistent_scan) 4 4
       = Inr (get_variance_ds (get_sigma B (get_s_matrix 5 rv)) rv)"
    by (rule SixBeamMethod_succeeds [OF consistent_scan_geometry, of 4 4])
       (simp_all add: consistent_scan_def)
  show ?thesis
    using consistent_scan_sigma [OF M B V, of 0 0] by (simp add: S get_variance_ds_def)
qed

section \<open>Properties of the DBS retrieval\<close>

lemma where_drop_map:
  "where_drop cond (map f xs) (map g xs) = map g (filter (\<lambda>x. cond (f x)) xs)"
  by (induction xs) (simp_all add: where_drop_def)

lemma map2_map_map: "map2 h (map f xs) (map g xs) = map (\<lambda>x. h (f x) (g x)) xs"
  by (induction xs) simp_all

lemma zip_map_map_same: "zip (map f xs) (map g xs) = map (\<lambda>x. (f x, g x)) xs"
  by (induction xs) simp_all

lemma beam_rows_beam_group: "beam_rows (select_beams data) az = beam_group data az"
proof -
  let ?xs = "filter (\<lambda>p. round1 (elevation p) \<noteq> 90) data"
  have "beam_rows (select_beams data) az
      = map (\<lambda>p. (scan_mean_time p, contribution p)) (filter (\<lambda>p. nominal_azimuth p = az) ?xs)"
    by (simp add: beam_rows_def select_beams_def Let_def Let_def map2_map_map where_drop_map
        zip_map_map_same contribution_def nominal_azimuth_def
        where_drop_map [where g = "\<lambda>p. map (\<lambda>v. nan_div v (2 * cos (deg2rad (round1 (elevation p))))) (radial_wind_speed p)"])
  then show ?thesis
    by (simp add: beam_group_def slanted_def conj_commute)
qed

lemma neg_aligned_sub:
  assumes "aligned_binop nan_sub P Q = Inr d"
  shows "opposing_difference P Q = Inr (map (\<lambda>(t, xs). (t, map nan_neg xs)) d)"
proof -
  have "map nan_neg (map2 nan_sub a b) = map2 (\<lambda>x y. nan_neg (nan_sub x y)) a b" for a b
    by (simp add: map_zip_map split_def)
  with assms show ?thesis
    by (auto simp: aligned_binop_def opposing_difference_def split_def split: sum.splits)
qed

lemma constructor_Inr:
  assumes "getWindProperties5Beam data0 sf c = (data, Inr wp)"
  shows "opposing_difference (beam_group data 0) (beam_group data 180) = Inr (rows (compV wp))"
    and "opposing_difference (beam_group data 90) (beam_group data 270) = Inr (rows (compU wp))"
    and "data = (case c of None \<Rightarrow> (\<lambda>d. d) | Some x \<Rightarrow> cnr_mask x)
                 ((if sf then status_mask else (\<lambda>d. d)) data0)"
proof -
  from assms show d: "data = (case c of None \<Rightarrow> (\<lambda>d. d) | Some x \<Rightarrow> cnr_mask x)
                 ((if sf then status_mask else (\<lambda>d. d)) data0)"
    by (auto simp: getWindProperties5Beam_def Let_def split: option.splits)
  from assms obtain cv cu where h: "calcHorWindComp_single_dbs (select_beams data) = Inr (cv, cu)"
    and wp: "compV wp = cv" "compU wp = cu"
    unfolding getWindProperties5Beam_def Let_def d [symmetric]
    by (auto split: sum.splits prod.splits)
  from h obtain dV dU where dV: "aligned_binop nan_sub (beam_group data 0) (beam_group data 180) = Inr dV"
    and dU: "aligned_binop nan_sub (beam_group data 90) (beam_group data 270) = Inr dU"
    and cv: "rows cv = map (\<lambda>(t, xs). (t, map nan_neg xs)) dV"
    and cu: "rows cu = map (\<lambda>(t, xs). (t, map nan_neg xs)) dU"
    by (auto simp: calcHorWindComp_single_dbs_def Let_def beam_rows_beam_group correctWindComp_def
        split: sum.splits list.splits)
  show "opposing_difference (beam_group data 0) (beam_group data 180) = Inr (rows (compV wp))"
    by (simp add: neg_aligned_sub [OF dV] wp cv)
  show "opposing_difference (beam_group data 90) (beam_group data 270) = Inr (rows (compU wp))"
    by (simp add: neg_aligned_sub [OF dU] wp cu)
qed

lemma round1_values:
  "round1 90 = 90" "round1 75.04 = 75" "round1 0 = 0" "round1 180 = 180" "round1 270 = 270"
  "round1 75 = 75" "round1 (1876 / 25) = 75" "round1 360 = 360"
  by (simp_all add: round1_def rint_def Let_def)

lemma rint_bounds:
  assumes "0 \<le> x" "x \<le> of_int n"
  shows "0 \<le> rint x" "rint x \<le> of_int n"
proof -
  have f0: "0 \<le> \<lfloor>x\<rfloor>" using assms(1) by simp
  have fn: "\<lfloor>x\<rfloor> \<le> n" using assms(2) by (simp add: floor_le_iff)
  show "0 \<le> rint x" using f0 by (auto simp: rint_def Let_def)
  have "of_int (\<lfloor>x\<rfloor> + 1) \<le> (of_int n :: real)" if "x - of_int \<lfloor>x\<rfloor> \<ge> 1 / 2"
  proof -
    from that have "of_int \<lfloor>x\<rfloor> < x" by linarith
    with assms(2) have "of_int \<lfloor>x\<rfloor> < (of_int n :: real)" by linarith
    then have "\<lfloor>x\<rfloor> < n" by simp
    then show ?thesis by simp
  qed
  then show "rint x \<le> of_int n" using fn by (auto simp: rint_def Let_def)
qed

lemma slanted_cos_nonzero:
  assumes "0 \<le> elevation p" "elevation p \<le> 90" "slanted p"
  shows "cos (deg2rad (round1 (elevation p))) \<noteq> 0"
proof -
  have "0 \<le> rint (elevation p * 10)" "rint (elevation p * 10) \<le> of_int 900"
    using assms(1,2) rint_bounds [of "elevation p * 10" 900] by simp_all
  then have "0 \<le> round1 (elevation p)" "round1 (elevation p) \<le> 90"
    by (simp_all add: round1_def)
  with assms(3) have "0 \<le> deg2rad (round1 (elevation p))" "deg2rad (round1 (elevation p)) < pi / 2"
    by (simp_all add: slanted_def deg2rad_def field_simps)
  then have "0 < cos (deg2rad (round1 (elevation p)))"
    by (intro cos_gt_zero_pi) linarith+
  then show ?thesis by simp
qed

lemma align_inner_sound:
  assumes "align_inner L R = Inr ts" "(t, a, b) \<in> set ts"
  shows "(t, a) \<in> set L \<and> (t, b) \<in> set R"
proof (cases "map fst L = map fst R")
  case True
  with assms obtain u where z: "((t, a), (u, b)) \<in> set (zip L R)"
    by (auto simp: align_inner_def)
  then obtain i where i: "i < length L" "i < length R" "L ! i = (t, a)" "R ! i = (u, b)"
    by (auto simp: in_set_zip)
  from True have "map fst L ! i = map fst R ! i" by simp
  with i have "t = u" by simp
  with z show ?thesis by (auto dest: set_zip_leftD set_zip_rightD)
next
  case False
  with assms have "(t, a, b) \<in> set (List.map_filter (\<lambda>(t, a). map_option (\<lambda>b. (t, a, b)) (map_of R t)) L)"
    by (auto simp: align_inner_def split: if_splits)
  then show ?thesis
    by (auto simp: map_filter_def dest: map_of_SomeD)
qed

lemma opposing_difference_rows:
  assumes "opposing_difference (beam_group data az) (beam_group data az') = Inr rs"
    and "(t, vs) \<in> set rs"
  shows "\<exists>p q. p \<in> set data \<and> q \<in> set data \<and> slanted p \<and> slanted q \<and>
           nominal_azimuth p = az \<and> nominal_azimuth q = az' \<and>
           scan_mean_time p = t \<and> scan_mean_time q = t \<and>
           vs = map2 (\<lambda>x y. nan_neg (nan_sub x y)) (contribution p) (contribution q)"
proof -
  from assms obtain ts a b where ts: "align_inner (beam_group data az) (beam_group data az') = Inr ts"
    and m: "(t, a, b) \<in> set ts" and vs: "vs = map2 (\<lambda>x y. nan_neg (nan_sub x y)) a b"
    by (auto simp: opposing_difference_def split: sum.splits)
  from align_inner_sound [OF ts m] obtain p q where
    "p \<in> set data" "slanted p" "nominal_azimuth p = az" "scan_mean_time p = t" "a = contribution p"
    "q \<in> set data" "slanted q" "nominal_azimuth q = az'" "scan_mean_time q = t" "b = contribution q"
    by (auto simp: beam_group_def)
  with vs show ?thesis by blast
qed

lemma dbs_scan_groups:
  "beam_group dbs_scan 0 = [(2, [Some (1 / (2 * cos (deg2rad 75)))])]"
  "beam_group dbs_scan 180 = [(2, [Some (0 / (2 * cos (deg2rad 75)))])]"
  "beam_group dbs_scan 90 = [(2, [Some (2 / (2 * cos (deg2rad 75)))])]"
  "beam_group dbs_scan 270 = [(2, [Some (2 / (2 * cos (deg2rad 75)))])]"
proof -
  have c: "cos (deg2rad 75) \<noteq> 0" by (rule elevation_cos_sin) simp_all
  show "beam_group dbs_scan 0 = [(2, [Some (1 / (2 * cos (deg2rad 75)))])]"
    "beam_group dbs_scan 180 = [(2, [Some (0 / (2 * cos (deg2rad 75)))])]"
    "beam_group dbs_scan 90 = [(2, [Some (2 / (2 * cos (deg2rad 75)))])]"
    "beam_group dbs_scan 270 = [(2, [Some (2 / (2 * cos (deg2rad 75)))])]"
    using c by (simp_all add: beam_group_def dbs_scan_def slanted_def nominal_azimuth_def
        round1_values contribution_def nan_div_def)
qed

lemma dbs_scan_result:
  "\<exists>wp. getWindProperties5Beam dbs_scan False None = (dbs_scan, Inr wp)"
proof -
  have r: "rangeVal90 (select_beams dbs_scan) = [[100]]"
    by (simp add: select_beams_def Let_def dbs_scan_def round1_values)
  have g: "beam_rows (select_beams dbs_scan) az = beam_group dbs_scan az" for az
    by (rule beam_rows_beam_group)
  have 1: "filter (\<lambda>p. round1 (elevation p) = 90) dbs_scan = [hd dbs_scan]"
    by (simp add: dbs_scan_def round1_values)
  have "\<exists>cv cu. calcHorWindComp_single_dbs (select_beams dbs_scan) = Inr (cv, cu) \<and>
          map fst (rows cv) = [2] \<and> map fst (rows cu) = [2]"
    by (simp add: calcHorWindComp_single_dbs_def Let_def g dbs_scan_groups aligned_binop_def
        align_inner_def correctWindComp_def r)
  then obtain cv cu where h: "calcHorWindComp_single_dbs (select_beams dbs_scan) = Inr (cv, cu)"
    and l: "map fst (rows cv) = map fst (rows cu)" by auto
  have s: "\<exists>s. calcHorWindSpeed cv cu = Inr s"
    using l by (simp add: calcHorWindSpeed_def aligned_binop_def align_inner_def)
  have d: "\<exists>d. calcHorWindDir cv cu = Inr d"
    using l by (simp add: calcHorWindDir_def aligned_binop_def align_inner_def)
  from s d obtain s' d' where "calcHorWindSpeed cv cu = Inr s'" "calcHorWindDir cv cu = Inr d'"
    by auto
  with h show ?thesis
    unfolding getWindProperties5Beam_def Let_def
    by (simp add: 1 r correctWindComp_def)
qed

lemma dbs_scan_wf: "wf_dataset dbs_scan"
  by (simp add: wf_dataset_def dbs_scan_def)

lemma rotated_scan_groups:
  "beam_group rotated_scan 0 = [(2, [Some (2 / (2 * cos (deg2rad 75)))])]"
  "beam_group rotated_scan 180 = [(2, [Some (2 / (2 * cos (deg2rad 75)))])]"
  "beam_group rotated_scan 90 = [(2, [Some (1 / (2 * cos (deg2rad 75)))])]"
  "beam_group rotated_scan 270 = [(2, [Some (0 / (2 * cos (deg2rad 75)))])]"
proof -
  have c: "cos (deg2rad 75) \<noteq> 0" by (rule elevation_cos_sin) simp_all
  show "beam_group rotated_scan 0 = [(2, [Some (2 / (2 * cos (deg2rad 75)))])]"
    "beam_group rotated_scan 180 = [(2, [Some (2 / (2 * cos (deg2rad 75)))])]"
    "beam_group rotated_scan 90 = [(2, [Some (1 / (2 * cos (deg2rad 75)))])]"
    "beam_group rotated_scan 270 = [(2, [Some (0 / (2 * cos (deg2rad 75)))])]"
    using c by (simp_all add: beam_group_def rotated_scan_def dbs_scan_def slanted_def
        nominal_azimuth_def round1_values contribution_def nan_div_def)
qed

lemma map_fst_fst_zip:
  "length A = length B \<Longrightarrow> map (\<lambda>x. fst (fst x)) (zip A B) = map fst A"
  by (induction A B rule: list_induct2) simp_all

lemma constructor_succeeds:
  assumes v: "filter (\<lambda>p. round1 (elevation p) = 90) data \<noteq> []"
    and l: "map fst (beam_group data 0) = map fst (beam_group data 180)"
      "map fst (beam_group data 90) = map fst (beam_group data 270)"
      "map fst (beam_group data 0) = map fst (beam_group data 90)"
  shows "\<exists>wp. getWindProperties5Beam data False None = (data, Inr wp)"
proof -
  from v obtain h hs where r: "rangeVal90 (select_beams data) = h # hs"
    by (cases "filter (\<lambda>p. round1 (elevation p) = 90) data") (auto simp: select_beams_def Let_def)
  from v obtain w where w: "correctWindComp (rangeVal90 (select_beams data))
      (map (\<lambda>p. (time_stamp p, radial_wind_speed p)) (filter (\<lambda>p. round1 (elevation p) = 90) data)) = Inr w"
    by (simp add: r correctWindComp_def)
  have len: "length (beam_group data 0) = length (beam_group data 180)"
    "length (beam_group data 90) = length (beam_group data 270)"
    using l(1,2) by (metis length_map)+
  have "\<exists>cv cu. calcHorWindComp_single_dbs (select_beams data) = Inr (cv, cu) \<and>
          map fst (rows cv) = map fst (beam_group data 0) \<and>
          map fst (rows cu) = map fst (beam_group data 90)"
    using l len
    by (simp add: calcHorWindComp_single_dbs_def Let_def beam_rows_beam_group aligned_binop_def
        align_inner_def correctWindComp_def r split_def o_def map_fst_fst_zip)
  then obtain cv cu where h: "calcHorWindComp_single_dbs (select_beams data) = Inr (cv, cu)"
    and e: "map fst (rows cv) = map fst (rows cu)" using l(3) by auto
  obtain s d where "calcHorWindSpeed cv cu = Inr s" "calcHorWindDir cv cu = Inr d"
    using e by (simp add: calcHorWindSpeed_def calcHorWindDir_def aligned_binop_def align_inner_def)
  with h w show ?thesis
    unfolding getWindProperties5Beam_def Let_def by simp
qed

lemma rotated_scan_result:
  "\<exists>wp. getWindProperties5Beam rotated_scan False None = (rotated_scan, Inr wp)"
  by (rule constructor_succeeds)
     (simp_all add: rotated_scan_groups, simp add: rotated_scan_def dbs_scan_def round1_values)

lemma zero_rows:
  assumes d: "opposing_difference (beam_group data az) (beam_group data az') = Inr rs"
    and el: "\<And>p. p \<in> set data \<Longrightarrow> 0 \<le> elevation p \<and> elevation p \<le> 90"
    and eq: "\<And>p q. p \<in> set data \<Longrightarrow> q \<in> set data \<Longrightarrow> slanted p \<Longrightarrow> slanted q \<Longrightarrow>
               nominal_azimuth p = az \<Longrightarrow> nominal_azimuth q = az' \<Longrightarrow>
               scan_mean_time p = scan_mean_time q \<Longrightarrow>
               radial_wind_speed p = radial_wind_speed q \<and> elevation p = elevation q \<and>
               None \<notin> set (radial_wind_speed p)"
    and m: "(t, vs) \<in> set rs" "v \<in> set vs"
  shows "v = Some 0"
proof -
  from opposing_difference_rows [OF d m(1)] obtain p q where
    pq: "p \<in> set data" "q \<in> set data" "slanted p" "slanted q" "nominal_azimuth p = az"
      "nominal_azimuth q = az'" "scan_mean_time p = t" "scan_mean_time q = t"
    and vs: "vs = map2 (\<lambda>x y. nan_neg (nan_sub x y)) (contribution p) (contribution q)"
    by blast
  from pq(7,8) have "scan_mean_time p = scan_mean_time q" by simp
  note E = eq [OF pq(1-6) this]
  from E have same: "radial_wind_speed p = radial_wind_speed q" "elevation p = elevation q"
    by blast+
  from E have some: "None \<notin> set (radial_wind_speed p)" by blast
  have c: "cos (deg2rad (round1 (elevation p))) \<noteq> 0"
    using slanted_cos_nonzero [of p] el [OF pq(1)] pq(3) by simp
  from same have cq: "contribution q = contribution p" by (simp add: contribution_def)
  from m(2) obtain x where x: "x \<in> set (contribution p)" and v: "v = nan_neg (nan_sub x x)"
    unfolding vs cq by (auto simp: in_set_zip zip_same_conv_map)
  from x obtain w where "w \<in> set (radial_wind_speed p)"
    and "x = nan_div w (2 * cos (deg2rad (round1 (elevation p))))"
    by (auto simp: contribution_def)
  with some c obtain y where "x = Some y"
    by (cases w) (auto simp: nan_div_def)
  with v show ?thesis by (simp add: nan_neg_def nan_sub_def)
qed

lemma flagged_scan_groups:
  "beam_group (status_mask flagged_scan) 0 = [(2, [Some (1 / (2 * cos (deg2rad 75)))])]"
  "beam_group (status_mask flagged_scan) 180 = [(2, [Some (0 / (2 * cos (deg2rad 75)))])]"
  "beam_group (status_mask flagged_scan) 90 = [(2, [None])]"
  "beam_group (status_mask flagged_scan) 270 = [(2, [Some (2 / (2 * cos (deg2rad 75)))])]"
proof -
  have c: "cos (deg2rad 75) \<noteq> 0" by (rule elevation_cos_sin) simp_all
  show "beam_group (status_mask flagged_scan) 0 = [(2, [Some (1 / (2 * cos (deg2rad 75)))])]"
  "beam_group (status_mask flagged_scan) 180 = [(2, [Some (0 / (2 * cos (deg2rad 75)))])]"
  "beam_group (status_mask flagged_scan) 90 = [(2, [None])]"
  "beam_group (status_mask flagged_scan) 270 = [(2, [Some (2 / (2 * cos (deg2rad 75)))])]"
    using c by (simp_all add: beam_group_def status_mask_def flagged_scan_def dbs_scan_def slanted_def
        nominal_azimuth_def round1_values contribution_def nan_div_def)
qed

lemma flagged_scan_result:
  "\<exists>wp. getWindProperties5Beam flagged_scan True None = (status_mask flagged_scan, Inr wp)"
proof -
  have "\<exists>wp. getWindProperties5Beam (status_mask flagged_scan) False None
           = (status_mask flagged_scan, Inr wp)"
    by (rule constructor_succeeds)
       (simp_all add: flagged_scan_groups,
        simp add: status_mask_def flagged_scan_def dbs_scan_def round1_values)
  then show ?thesis
    by (simp add: getWindProperties5Beam_def Let_def)
qed

lemma masked_scan_groups:
  "beam_group (status_mask dbs_scan) 0 = [(2, [Some (1 / (2 * cos (deg2rad 75)))])]"
  "beam_group (status_mask dbs_scan) 180 = [(2, [Some (0 / (2 * cos (deg2rad 75)))])]"
  "beam_group (status_mask dbs_scan) 90 = [(2, [Some (2 / (2 * cos (deg2rad 75)))])]"
  "beam_group (status_mask dbs_scan) 270 = [(2, [Some (2 / (2 * cos (deg2rad 75)))])]"
proof -
  have c: "cos (deg2rad 75) \<noteq> 0" by (rule elevation_cos_sin) simp_all
  show "beam_group (status_mask dbs_scan) 0 = [(2, [Some (1 / (2 * cos (deg2rad 75)))])]"
  "beam_group (status_mask dbs_scan) 180 = [(2, [Some (0 / (2 * cos (deg2rad 75)))])]"
  "beam_group (status_mask dbs_scan) 90 = [(2, [Some (2 / (2 * cos (deg2rad 75)))])]"
  "beam_group (status_mask dbs_scan) 270 = [(2, [Some (2 / (2 * cos (deg2rad 75)))])]"
    using c by (simp_all add: beam_group_def status_mask_def dbs_scan_def slanted_def
        nominal_azimuth_def round1_values contribution_def nan_div_def)
qed

lemma masked_scan_result:
  "\<exists>wp. getWindProperties5Beam dbs_scan True None = (status_mask dbs_scan, Inr wp)"
proof -
  have "\<exists>wp. getWindProperties5Beam (status_mask dbs_scan) False None
           = (status_mask dbs_scan, Inr wp)"
    by (rule constructor_succeeds)
       (simp_all add: masked_scan_groups,
        simp add: status_mask_def dbs_scan_def round1_values)
  then show ?thesis
    by (simp add: getWindProperties5Beam_def Let_def)
qed

section \<open>Claims on the DBS retrieval\<close>

text \<open>
  C3, as amended.  Constructing \<open>getWindProperties5Beam\<close> without the status filter and
  without a carrier-to-noise threshold leaves the input dataset unchanged.  With the
  status filter or a threshold, the radial wind speed of the caller's dataset is
  overwritten by the masked field; every other field of the dataset is unchanged.
\<close>

theorem constructor_dataset_effect:
  "fst (getWindProperties5Beam data False None) = data \<and>
   fst (getWindProperties5Beam data statusFilter cnr_min) =
     (case cnr_min of None \<Rightarrow> (\<lambda>d. d) | Some c \<Rightarrow> cnr_mask c)
       ((if statusFilter then status_mask else (\<lambda>d. d)) data) \<and>
   map (\<lambda>p. p\<lparr>radial_wind_speed := []\<rparr>) (fst (getWindProperties5Beam data statusFilter cnr_min))
     = map (\<lambda>p. p\<lparr>radial_wind_speed := []\<rparr>) data"
  by (cases cnr_min)
     (simp_all add: getWindProperties5Beam_def Let_def status_mask_def cnr_mask_def o_def)

theorem constructor_dataset_effect_witness:
  "fst (getWindProperties5Beam dbs_scan False None) = dbs_scan"
  using constructor_dataset_effect [of dbs_scan] by simp

text \<open>
  The claim as first stated fails with the status filter: the flagged sample of the
  vertical profile is missing in the caller's dataset after the construction.
\<close>

theorem constructor_dataset_effect_counterexample:
  "fst (getWindProperties5Beam dbs_scan True None) \<noteq> dbs_scan \<and>
   radial_wind_speed (hd dbs_scan) = [Some (1 / 2)] \<and>
   radial_wind_speed (hd (fst (getWindProperties5Beam dbs_scan True None))) = [None]"
  by (simp add: getWindProperties5Beam_def Let_def status_mask_def dbs_scan_def)

text \<open>
  C6, as amended.  Under the single-scan policy every slanted-beam radial velocity is
  divided by twice the cosine of the elevation rounded to one decimal, the samples are
  grouped by the rounded nominal azimuth, every group is labelled by the mean time of
  the scan of each sample, and the outputs are the negated differences north minus south
  (meridional) and east minus west (zonal) of the samples with the same label: the time
  stamps of the samples play no part.
\<close>

theorem single_scan_policy:
  assumes "wf_dataset data0"
    and "getWindProperties5Beam data0 statusFilter cnr_min = (data, Inr wp)"
  shows "opposing_difference (beam_group data 0) (beam_group data 180) = Inr (rows (compV wp)) \<and>
         opposing_difference (beam_group data 90) (beam_group data 270) = Inr (rows (compU wp)) \<and>
         (\<forall>(t, vs)\<in>set (rows (compV wp)).
            \<exists>n s. n \<in> set data \<and> s \<in> set data \<and> slanted n \<and> slanted s \<and>
              nominal_azimuth n = 0 \<and> nominal_azimuth s = 180 \<and>
              scan_mean_time n = t \<and> scan_mean_time s = t \<and>
              vs = map2 (\<lambda>x y. nan_neg (nan_sub x y)) (contribution n) (contribution s)) \<and>
         (\<forall>(t, vs)\<in>set (rows (compU wp)).
            \<exists>e w. e \<in> set data \<and> w \<in> set data \<and> slanted e \<and> slanted w \<and>
              nominal_azimuth e = 90 \<and> nominal_azimuth w = 270 \<and>
              scan_mean_time e = t \<and> scan_mean_time w = t \<and>
              vs = map2 (\<lambda>x y. nan_neg (nan_sub x y)) (contribution e) (contribution w))"
proof -
  note C = constructor_Inr [OF assms(2)]
  have V: "case x of (t, vs) \<Rightarrow>
            \<exists>n s. n \<in> set data \<and> s \<in> set data \<and> slanted n \<and> slanted s \<and>
              nominal_azimuth n = 0 \<and> nominal_azimuth s = 180 \<and>
              scan_mean_time n = t \<and> scan_mean_time s = t \<and>
              vs = map2 (\<lambda>x y. nan_neg (nan_sub x y)) (contribution n) (contribution s)"
    if "x \<in> set (rows (compV wp))" for x
  proof -
    obtain t vs where x: "x = (t, vs)" by (cases x)
    from opposing_difference_rows [OF C(1), of t vs] that show ?thesis
      unfolding x by simp
  qed
  have U: "case x of (t, vs) \<Rightarrow>
            \<exists>e w. e \<in> set data \<and> w \<in> set data \<and> slanted e \<and> slanted w \<and>
              nominal_azimuth e = 90 \<and> nominal_azimuth w = 270 \<and>
              scan_mean_time e = t \<and> scan_mean_time w = t \<and>
              vs = map2 (\<lambda>x y. nan_neg (nan_sub x y)) (contribution e) (contribution w)"
    if "x \<in> set (rows (compU wp))" for x
  proof -
    obtain t vs where x: "x = (t, vs)" by (cases x)
    from opposing_difference_rows [OF C(2), of t vs] that show ?thesis
      unfolding x by simp
  qed
  from C(1,2) V U show ?thesis by blast
qed

theorem single_scan_policy_witness:
  "(case snd (getWindProperties5Beam dbs_scan False None) of
      Inr wp \<Rightarrow> rows (compV wp) = [(2, [Some (- (1 / (2 * cos (deg2rad 75))))])] \<and>
               rows (compU wp) = [(2, [Some 0])]
    | Inl e \<Rightarrow> False)"
proof -
  from dbs_scan_result obtain wp where
    wp: "getWindProperties5Beam dbs_scan False None = (dbs_scan, Inr wp)" ..
  from single_scan_policy [OF dbs_scan_wf wp]
  have "opposing_difference (beam_group dbs_scan 0) (beam_group dbs_scan 180) = Inr (rows (compV wp))"
    and "opposing_difference (beam_group dbs_scan 90) (beam_group dbs_scan 270) = Inr (rows (compU wp))"
    by blast+
  then show ?thesis
    by (simp add: wp dbs_scan_groups opposing_difference_def align_inner_def nan_neg_def
        nan_sub_def)
qed

text \<open>
  The claim as first stated fails for an elevation that is not a multiple of a tenth of
  a degree: at 75.04 degrees the velocities are divided by twice the cosine of 75
  degrees.
\<close>

theorem single_scan_policy_counterexample:
  "(case snd (getWindProperties5Beam dbs_scan False None) of
      Inr wp \<Rightarrow> opposing_difference (beam_group_unrounded dbs_scan 0)
                 (beam_group_unrounded dbs_scan 180) \<noteq> Inr (rows (compV wp))
    | Inl e \<Rightarrow> False)"
proof -
  from dbs_scan_result obtain wp where
    wp: "getWindProperties5Beam dbs_scan False None = (dbs_scan, Inr wp)" ..
  from constructor_Inr(1) [OF wp]
  have r: "rows (compV wp) = [(2, [Some (- (1 / (2 * cos (deg2rad 75))))])]"
    by (simp add: dbs_scan_groups opposing_difference_def align_inner_def nan_neg_def nan_sub_def)
  have lt: "cos (deg2rad 75.04) < cos (deg2rad 75)"
    by (rule cos_monotone_0_pi) (simp_all add: deg2rad_def field_simps)
  have pos: "0 < cos (deg2rad 75.04)"
    by (rule cos_gt_zero_pi) (simp_all add: deg2rad_def field_simps)
  have u: "opposing_difference (beam_group_unrounded dbs_scan 0) (beam_group_unrounded dbs_scan 180)
      = Inr [(2, [Some (- (1 / (2 * cos (deg2rad 75.04))))])]"
    using pos by (simp add: beam_group_unrounded_def dbs_scan_def slanted_def nominal_azimuth_def
        round1_values contribution_unrounded_def nan_div_def opposing_difference_def
        align_inner_def nan_neg_def nan_sub_def)
  from lt pos have "1 / (2 * cos (deg2rad 75.04)) \<noteq> 1 / (2 * cos (deg2rad 75))"
    by (simp add: field_simps)
  then show ?thesis by (simp add: wp r u)
qed

text \<open>
  C7, as amended.  In a DBS dataset with elevations between 0 and 90 degrees in which,
  after the status and carrier-to-noise masks of the constructor, the east and the west
  beam of every scan have the same radial velocities, present at every range, and the
  same elevation, every value of the retrieved zonal component is exactly zero; and
  likewise for the north and south beams and the meridional component.  The beams of a
  scan are those with the same scan-mean time.
\<close>

theorem opposing_beams_cancel:
  assumes "wf_dataset data0"
    and "getWindProperties5Beam data0 statusFilter cnr_min = (data, Inr wp)"
    and "\<forall>p\<in>set data. 0 \<le> elevation p \<and> elevation p \<le> 90"
  shows "((\<forall>e\<in>set data. \<forall>w\<in>set data.
             slanted e \<and> slanted w \<and> nominal_azimuth e = 90 \<and> nominal_azimuth w = 270 \<and>
             scan_mean_time e = scan_mean_time w \<longrightarrow>
             radial_wind_speed e = radial_wind_speed w \<and> elevation e = elevation w \<and>
             None \<notin> set (radial_wind_speed e)) \<longrightarrow>
          (\<forall>(t, vs)\<in>set (rows (compU wp)). \<forall>v\<in>set vs. v = Some 0)) \<and>
         ((\<forall>n\<in>set data. \<forall>s\<in>set data.
             slanted n \<and> slanted s \<and> nominal_azimuth n = 0 \<and> nominal_azimuth s = 180 \<and>
             scan_mean_time n = scan_mean_time s \<longrightarrow>
             radial_wind_speed n = radial_wind_speed s \<and> elevation n = elevation s \<and>
             None \<notin> set (radial_wind_speed n)) \<longrightarrow>
          (\<forall>(t, vs)\<in>set (rows (compV wp)). \<forall>v\<in>set vs. v = Some 0))"
proof -
  note C = constructor_Inr [OF assms(2)]
  from assms(3) have el: "\<And>p. p \<in> set data \<Longrightarrow> 0 \<le> elevation p \<and> elevation p \<le> 90" by blast
  show ?thesis
  proof (intro conjI impI ballI)
    fix x v
    assume h: "\<forall>e\<in>set data. \<forall>w\<in>set data.
             slanted e \<and> slanted w \<and> nominal_azimuth e = 90 \<and> nominal_azimuth w = 270 \<and>
             scan_mean_time e = scan_mean_time w \<longrightarrow>
             radial_wind_speed e = radial_wind_speed w \<and> elevation e = elevation w \<and>
             None \<notin> set (radial_wind_speed e)"
      and x: "x \<in> set (rows (compU wp))"
    obtain t vs where tv: "x = (t, vs)" by (cases x)
    have "v = Some 0" if "v \<in> set vs" for v
      by (rule zero_rows [OF C(2) el _ _ that]) (use h x tv in blast)+
    then show "case x of (t, vs) \<Rightarrow> \<forall>v\<in>set vs. v = Some 0" by (simp add: tv)
  next
    fix x v
    assume h: "\<forall>n\<in>set data. \<forall>s\<in>set data.
             slanted n \<and> slanted s \<and> nominal_azimuth n = 0 \<and> nominal_azimuth s = 180 \<and>
             scan_mean_time n = scan_mean_time s \<longrightarrow>
             radial_wind_speed n = radial_wind_speed s \<and> elevation n = elevation s \<and>
             None \<notin> set (radial_wind_speed n)"
      and x: "x \<in> set (rows (compV wp))"
    obtain t vs where tv: "x = (t, vs)" by (cases x)
    have "v = Some 0" if "v \<in> set vs" for v
      by (rule zero_rows [OF C(1) el _ _ that]) (use h x tv in blast)+
    then show "case x of (t, vs) \<Rightarrow> \<forall>v\<in>set vs. v = Some 0" by (simp add: tv)
  qed
qed

theorem opposing_beams_cancel_witness:
  "(case snd (getWindProperties5Beam dbs_scan True None) of
      Inr wp \<Rightarrow> rows (compU wp) \<noteq> [] \<and>
               list_all (\<lambda>(t, vs). list_all (\<lambda>v. v = Some 0) vs) (rows (compU wp))
    | Inl e \<Rightarrow> False) \<and>
   (case snd (getWindProperties5Beam rotated_scan False None) of
      Inr wp \<Rightarrow> rows (compV wp) \<noteq> [] \<and>
               list_all (\<lambda>(t, vs). list_all (\<lambda>v. v = Some 0) vs) (rows (compV wp))
    | Inl e \<Rightarrow> False)"
proof -
  from masked_scan_result obtain wp where
    wp: "getWindProperties5Beam dbs_scan True None = (status_mask dbs_scan, Inr wp)" ..
  from rotated_scan_result obtain wp' where
    wp': "getWindProperties5Beam rotated_scan False None = (rotated_scan, Inr wp')" ..
  have wf': "wf_dataset rotated_scan"
    by (simp add: wf_dataset_def rotated_scan_def dbs_scan_def)
  have el: "\<forall>p\<in>set (status_mask dbs_scan). 0 \<le> elevation p \<and> elevation p \<le> 90"
    by (simp add: status_mask_def dbs_scan_def)
  have el': "\<forall>p\<in>set rotated_scan. 0 \<le> elevation p \<and> elevation p \<le> 90"
    by (simp add: rotated_scan_def dbs_scan_def)
  have ew: "\<forall>e\<in>set (status_mask dbs_scan). \<forall>w\<in>set (status_mask dbs_scan).
             slanted e \<and> slanted w \<and> nominal_azimuth e = 90 \<and> nominal_azimuth w = 270 \<and>
             scan_mean_time e = scan_mean_time w \<longrightarrow>
             radial_wind_speed e = radial_wind_speed w \<and> elevation e = elevation w \<and>
             None \<notin> set (radial_wind_speed e)"
    by (simp add: status_mask_def dbs_scan_def slanted_def nominal_azimuth_def round1_values)
  have ns: "\<forall>n\<in>set rotated_scan. \<forall>s\<in>set rotated_scan.
             slanted n \<and> slanted s \<and> nominal_azimuth n = 0 \<and> nominal_azimuth s = 180 \<and>
             scan_mean_time n = scan_mean_time s \<longrightarrow>
             radial_wind_speed n = radial_wind_speed s \<and> elevation n = elevation s \<and>
             None \<notin> set (radial_wind_speed n)"
    by (simp add: rotated_scan_def dbs_scan_def slanted_def nominal_azimuth_def round1_values)
  from opposing_beams_cancel [OF dbs_scan_wf wp el, THEN conjunct1, THEN mp, OF ew]
  have 1: "list_all (\<lambda>(t, vs). list_all (\<lambda>v. v = Some 0) vs) (rows (compU wp))"
    by (auto simp: list_all_iff)
  from opposing_beams_cancel [OF wf' wp' el', THEN conjunct2, THEN mp, OF ns]
  have 2: "list_all (\<lambda>(t, vs). list_all (\<lambda>v. v = Some 0) vs) (rows (compV wp'))"
    by (auto simp: list_all_iff)
  have 3: "rows (compU wp) \<noteq> []"
    using constructor_Inr(2) [OF wp]
    by (auto simp: masked_scan_groups opposing_difference_def align_inner_def)
  have 4: "rows (compV wp') \<noteq> []"
    using constructor_Inr(1) [OF wp']
    by (auto simp: rotated_scan_groups opposing_difference_def align_inner_def)
  from 1 2 3 4 show ?thesis by (simp add: wp wp')
qed

text \<open>
  The claim as first stated fails when a mask removes a sample: the east and the west
  beam of the scan have the same radial velocity and elevation, the status flag of the
  east beam is bad, and with the status filter the zonal component is missing, not zero.
\<close>

theorem opposing_beams_cancel_counterexample:
  "azimuth (flagged_scan ! 2) = 90 \<and> azimuth (flagged_scan ! 4) = 270 \<and>
   radial_wind_speed (flagged_scan ! 2) = [Some 2] \<and>
   radial_wind_speed (flagged_scan ! 4) = [Some 2] \<and>
   elevation (flagged_scan ! 2) = elevation (flagged_scan ! 4) \<and>
   scan_mean_time (flagged_scan ! 2) = scan_mean_time (flagged_scan ! 4) \<and>
   (case snd (getWindProperties5Beam flagged_scan True None) of
      Inr wp \<Rightarrow> rows (compU wp) = [(2, [None])]
    | Inl e \<Rightarrow> False)"
proof -
  from flagged_scan_result obtain wp where
    wp: "getWindProperties5Beam flagged_scan True None = (status_mask flagged_scan, Inr wp)" ..
  from constructor_Inr(2) [OF wp]
  have "rows (compU wp) = [(2, [None])]"
    by (simp add: flagged_scan_groups opposing_difference_def align_inner_def nan_neg_def
        nan_sub_def)
  then have r: "(case snd (getWindProperties5Beam flagged_scan True None) of
      Inr wp \<Rightarrow> rows (compU wp) = [(2, [None])]
    | Inl e \<Rightarrow> False)"
    by (simp add: wp)
  have "azimuth (flagged_scan ! 2) = 90 \<and> azimuth (flagged_scan ! 4) = 270 \<and>
   radial_wind_speed (flagged_scan ! 2) = [Some 2] \<and>
   radial_wind_speed (flagged_scan ! 4) = [Some 2] \<and>
   elevation (flagged_scan ! 2) = elevation (flagged_scan ! 4) \<and>
   scan_mean_time (flagged_scan ! 2) = scan_mean_time (flagged_scan ! 4)"
    by (simp add: flagged_scan_def dbs_scan_def)
  with r show ?thesis by blast
qed

section \<open>Properties of the Fourier retrieval\<close>









lemma length_fftshift [simp]: "length (fftshift ys) = length ys"
  by (simp add: fftshift_def)








lemma length_fft [simp]: "length (fft xs) = length xs"
  by (simp add: fft_def)

lemma length_fftfreq [simp]: "length (fftfreq n d) = n"
  by (simp add: fftfreq_def)














section \<open>Claim on the Fourier retrieval\<close>




end
